theory Spec2Isabelle
  imports Complex_Main "HOL-Library.Sublist"
begin

section \<open>Python values\<close>

text \<open>
  The functions of \<^verbatim>\<open>utils.py\<close> work on three kinds of data: the submitted form
  (a dict whose values are \<^verbatim>\<open>str\<close> or \<^verbatim>\<open>None\<close>, built in \<^verbatim>\<open>app.py\<close> from
  \<^verbatim>\<open>request.form.get\<close>), the scheme list decoded by \<^verbatim>\<open>json.load\<close>, and the answers
  of the second step (a dict from \<^verbatim>\<open>str\<close> to \<^verbatim>\<open>str\<close>).

  A Python \<^verbatim>\<open>str\<close> is modelled by a \<^typ>\<open>string\<close> whose characters are the code points
  below 256. Every exception the code can raise is a value of \<open>py_error\<close>, and a
  computation that may raise returns \<open>py_error + 'a\<close>.
\<close>

datatype py_error = ValueError | TypeError | AttributeError | IndexError | KeyError

text \<open>
  A Python \<^verbatim>\<open>float\<close>: a finite double is modelled by its exact rational value (Python
  compares an \<^verbatim>\<open>int\<close> with a \<^verbatim>\<open>float\<close> exactly), and \<^verbatim>\<open>json.load\<close> also accepts
  \<^verbatim>\<open>Infinity\<close>, \<^verbatim>\<open>-Infinity\<close> and \<^verbatim>\<open>NaN\<close>.
\<close>

datatype pyfloat = Finite rat | PosInf | NegInf | NaN

text \<open>
  A value decoded by \<^verbatim>\<open>json.load\<close>. A dict keeps its insertion order, so an object is
  an association list; a key is looked up with \<^const>\<open>map_of\<close>.
\<close>

datatype json =
    JNull
  | JBool bool
  | JInt int
  | JFloat pyfloat
  | JStr string
  | JList "json list"
  | JObj "(string \<times> json) list"

text \<open>The truth value Python gives a decoded value in \<^verbatim>\<open>if x\<close>.\<close>

fun truthy :: "json \<Rightarrow> bool" where
  "truthy JNull = False"
| "truthy (JBool b) = b"
| "truthy (JInt i) = (i \<noteq> 0)"
| "truthy (JFloat f) = (f \<noteq> Finite 0)"
| "truthy (JStr s) = (s \<noteq> [])"
| "truthy (JList xs) = (xs \<noteq> [])"
| "truthy (JObj kvs) = (kvs \<noteq> [])"

text \<open>\<^verbatim>\<open>x.get(k, d)\<close>: only a dict has the method.\<close>

fun py_get :: "json \<Rightarrow> string \<Rightarrow> json \<Rightarrow> py_error + json" where
  "py_get (JObj kvs) k d = Inr (case map_of kvs k of None \<Rightarrow> d | Some v \<Rightarrow> v)"
| "py_get _ k d = Inl AttributeError"

text \<open>
  \<^verbatim>\<open>x[i]\<close> for a literal index \<open>i \<ge> 0\<close>. The keys of a decoded object are strings, so
  an integer subscript of a dict is a missing key.
\<close>

fun py_index :: "json \<Rightarrow> nat \<Rightarrow> py_error + json" where
  "py_index (JList xs) i = (if i < length xs then Inr (xs ! i) else Inl IndexError)"
| "py_index (JStr s) i = (if i < length s then Inr (JStr [s ! i]) else Inl IndexError)"
| "py_index (JObj kvs) i = Inl KeyError"
| "py_index _ i = Inl TypeError"

text \<open>
  Numbers. \<^verbatim>\<open>bool\<close> is a subclass of \<^verbatim>\<open>int\<close>, so \<^verbatim>\<open>isinstance(x, (int, float))\<close>
  holds of \<^verbatim>\<open>True\<close> and \<^verbatim>\<open>False\<close> too, and they compare as 1 and 0.
\<close>

fun as_number :: "json \<Rightarrow> pyfloat option" where
  "as_number (JBool b) = Some (Finite (if b then 1 else 0))"
| "as_number (JInt i) = Some (Finite (of_int i))"
| "as_number (JFloat f) = Some f"
| "as_number _ = None"

fun float_le :: "pyfloat \<Rightarrow> pyfloat \<Rightarrow> bool" where
  "float_le NaN _ = False"
| "float_le _ NaN = False"
| "float_le NegInf _ = True"
| "float_le _ PosInf = True"
| "float_le (Finite a) (Finite b) = (a \<le> b)"
| "float_le _ _ = False"

fun float_lt :: "pyfloat \<Rightarrow> pyfloat \<Rightarrow> bool" where
  "float_lt NaN _ = False"
| "float_lt _ NaN = False"
| "float_lt (Finite a) (Finite b) = (a < b)"
| "float_lt NegInf NegInf = False"
| "float_lt NegInf _ = True"
| "float_lt PosInf _ = False"
| "float_lt (Finite a) PosInf = True"
| "float_lt (Finite a) NegInf = False"

text \<open>
  \<^verbatim>\<open>a <= n\<close>, \<^verbatim>\<open>n <= b\<close> and \<^verbatim>\<open>n > b\<close> where \<open>n\<close> is an \<^verbatim>\<open>int\<close>: against anything
  that is not a number the comparison raises \<^verbatim>\<open>TypeError\<close>.
\<close>

definition le_int :: "json \<Rightarrow> int \<Rightarrow> py_error + bool" where
  "le_int a n = (case as_number a of None \<Rightarrow> Inl TypeError
                 | Some x \<Rightarrow> Inr (float_le x (Finite (of_int n))))"

definition int_le :: "int \<Rightarrow> json \<Rightarrow> py_error + bool" where
  "int_le n b = (case as_number b of None \<Rightarrow> Inl TypeError
                 | Some y \<Rightarrow> Inr (float_le (Finite (of_int n)) y))"

definition int_gt :: "int \<Rightarrow> json \<Rightarrow> py_error + bool" where
  "int_gt n b = (case as_number b of None \<Rightarrow> Inl TypeError
                 | Some y \<Rightarrow> Inr (float_lt y (Finite (of_int n))))"

text \<open>
  The chained comparison \<^verbatim>\<open>r[0] <= n <= r[1]\<close>: \<^verbatim>\<open>r[1]\<close> is evaluated only when the
  first comparison is true.
\<close>

definition in_range :: "json \<Rightarrow> int \<Rightarrow> py_error + bool" where
  "in_range r n =
     (case py_index r 0 of Inl e \<Rightarrow> Inl e
      | Inr lo \<Rightarrow>
          (case le_int lo n of Inl e \<Rightarrow> Inl e
           | Inr c \<Rightarrow>
               if \<not> c then Inr False
               else (case py_index r 1 of Inl e \<Rightarrow> Inl e | Inr hi \<Rightarrow> int_le n hi)))"

subsection \<open>Strings\<close>

text \<open>\<^verbatim>\<open>str.lower\<close> on code points below 256: A to Z, and the Latin-1 capitals.\<close>

definition lower_char :: "char \<Rightarrow> char" where
  "lower_char c =
     (let n = (of_char c :: nat)
      in if (65 \<le> n \<and> n \<le> 90) \<or> (192 \<le> n \<and> n \<le> 222 \<and> n \<noteq> 215)
         then char_of (n + 32) else c)"

definition py_lower :: "string \<Rightarrow> string" where
  "py_lower s = map lower_char s"

text \<open>\<^verbatim>\<open>x.lower()\<close> on a decoded value: only a \<^verbatim>\<open>str\<close> has the method.\<close>

fun lower_of :: "json \<Rightarrow> py_error + string" where
  "lower_of (JStr s) = Inr (py_lower s)"
| "lower_of _ = Inl AttributeError"

text \<open>
  \<^verbatim>\<open>s.replace('_', ' ')\<close> and \<^verbatim>\<open>s.title()\<close>; the code applies them to the five field
  names only, so \<open>py_title\<close> treats the ASCII letters.
\<close>

definition py_replace :: "char \<Rightarrow> char \<Rightarrow> string \<Rightarrow> string" where
  "py_replace x y s = map (\<lambda>c. if c = x then y else c) s"

definition is_lower_ascii :: "char \<Rightarrow> bool" where
  "is_lower_ascii c = (97 \<le> (of_char c :: nat) \<and> (of_char c :: nat) \<le> 122)"

definition is_upper_ascii :: "char \<Rightarrow> bool" where
  "is_upper_ascii c = (65 \<le> (of_char c :: nat) \<and> (of_char c :: nat) \<le> 90)"

fun title_from :: "bool \<Rightarrow> string \<Rightarrow> string" where
  "title_from prev [] = []"
| "title_from prev (c # cs) =
     (if is_lower_ascii c
      then (if prev then c else char_of ((of_char c :: nat) - 32)) # title_from True cs
      else if is_upper_ascii c
      then (if prev then char_of ((of_char c :: nat) + 32) else c) # title_from True cs
      else c # title_from False cs)"

definition py_title :: "string \<Rightarrow> string" where
  "py_title s = title_from False s"

subsection \<open>\<^verbatim>\<open>int(s)\<close> on a string\<close>

text \<open>
  \<^verbatim>\<open>int(s)\<close> strips white space at both ends, reads an optional sign and then decimal
  digits, where single underscores may stand between digits. Anything else raises
  \<^verbatim>\<open>ValueError\<close> (the result \<open>None\<close>), and so does a string of more than
  \<open>int_max_str_digits\<close> digits (CPython's default limit).
\<close>

definition is_space :: "char \<Rightarrow> bool" where
  "is_space c = ((of_char c :: nat) \<in> {9, 10, 11, 12, 13, 32, 133, 160})"

definition strip :: "string \<Rightarrow> string" where
  "strip s = rev (dropWhile is_space (rev (dropWhile is_space s)))"

definition digit_val :: "char \<Rightarrow> nat option" where
  "digit_val c =
     (let n = (of_char c :: nat) in if 48 \<le> n \<and> n \<le> 57 then Some (n - 48) else None)"

fun digits_value :: "nat \<Rightarrow> string \<Rightarrow> nat option" where
  "digits_value acc [] = Some acc"
| "digits_value acc (c # cs) =
     (if c = CHR ''_''
      then (case cs of
              [] \<Rightarrow> None
            | d # ds \<Rightarrow>
                (case digit_val d of None \<Rightarrow> None
                 | Some v \<Rightarrow> digits_value (10 * acc + v) ds))
      else (case digit_val c of None \<Rightarrow> None
            | Some v \<Rightarrow> digits_value (10 * acc + v) cs))"

definition parse_decimal :: "string \<Rightarrow> nat option" where
  "parse_decimal body =
     (case body of
        [] \<Rightarrow> None
      | c # cs \<Rightarrow> (case digit_val c of None \<Rightarrow> None | Some v \<Rightarrow> digits_value v cs))"

definition int_max_str_digits :: nat where
  "int_max_str_digits = 4300"

text \<open>The sign, if there is one, and what follows it.\<close>

definition split_sign :: "string \<Rightarrow> bool \<times> string" where
  "split_sign t =
     (case t of
        [] \<Rightarrow> (False, [])
      | c # r \<Rightarrow>
          if c = CHR ''-'' then (True, r)
          else if c = CHR ''+'' then (False, r)
          else (False, t))"

definition py_int :: "string \<Rightarrow> int option" where
  "py_int s =
     (case split_sign (strip s) of
        (neg, body) \<Rightarrow>
          (case parse_decimal body of
             None \<Rightarrow> None
           | Some n \<Rightarrow>
               if int_max_str_digits < length (filter (\<lambda>c. c \<noteq> CHR ''_'') body) then None
               else Some (if neg then - int n else int n)))"

section \<open>The validator\<close>

text \<open>
  The form: a dict whose values are \<^verbatim>\<open>str\<close> or \<^verbatim>\<open>None\<close>. \<^verbatim>\<open>data.get(k)\<close> is
  \<^verbatim>\<open>None\<close> for a missing key and for a key bound to \<^verbatim>\<open>None\<close>.
\<close>

type_synonym form = "string \<Rightarrow> string option option"

definition form_get :: "form \<Rightarrow> string \<Rightarrow> string option" where
  "form_get data k = (case data k of None \<Rightarrow> None | Some v \<Rightarrow> v)"

text \<open>
  \<^verbatim>\<open>not x\<close> for \<open>x\<close> a \<^verbatim>\<open>str\<close> or \<^verbatim>\<open>None\<close>: both \<^verbatim>\<open>None\<close> and the empty string
  count as missing.
\<close>

fun falsy :: "string option \<Rightarrow> bool" where
  "falsy None = True"
| "falsy (Some s) = (s = [])"

text \<open>\<^verbatim>\<open>validate_input\<close> returns \<^verbatim>\<open>True\<close> (\<open>Valid\<close>) or an error message.\<close>

datatype validation = Valid | Invalid string

definition required_fields :: "string list" where
  "required_fields = [''gender'', ''caste'', ''district'', ''occupation'', ''location'']"

text \<open>The loop over \<^verbatim>\<open>required_fields\<close>, followed by \<^verbatim>\<open>return True\<close>.\<close>

fun required_loop :: "form \<Rightarrow> string list \<Rightarrow> validation" where
  "required_loop data [] = Valid"
| "required_loop data (field # rest) =
     (if falsy (form_get data field)
      then Invalid (''Missing required field: ''
                    @ py_title (py_replace (CHR ''_'') (CHR '' '') field) @ ''.'')
      else required_loop data rest)"

text \<open>
  With form values that are \<^verbatim>\<open>str\<close> or \<^verbatim>\<open>None\<close>, the only exception inside the outer
  \<^verbatim>\<open>try\<close> is the \<^verbatim>\<open>ValueError\<close> of \<^verbatim>\<open>int\<close>, which the inner handlers catch; the outer
  handler is never entered.
\<close>

definition validate_input :: "form \<Rightarrow> validation" where
  "validate_input data =
     (case form_get data ''age'' of
        None \<Rightarrow> Invalid ''Age is a required field.''
      | Some age_str \<Rightarrow>
          if age_str = [] then Invalid ''Age is a required field.''
          else (case py_int age_str of
            None \<Rightarrow> Invalid ''Invalid age value. Please enter a number.''
          | Some age \<Rightarrow>
              if \<not> (0 \<le> age \<and> age \<le> 150) then Invalid ''Age must be between 0 and 150.''
              else (case form_get data ''income'' of
                None \<Rightarrow> Invalid ''Annual Income is a required field.''
              | Some income_str \<Rightarrow>
                  if income_str = [] then Invalid ''Annual Income is a required field.''
                  else (case py_int income_str of
                    None \<Rightarrow>
                      Invalid ''Invalid annual income value. Please select a valid range.''
                  | Some income \<Rightarrow>
                      if income < 0 then Invalid ''Annual Income cannot be negative.''
                      else required_loop data required_fields))))"

section \<open>The eligibility filter\<close>

text \<open>Sequencing of computations that may raise.\<close>

definition and_then :: "'e + 'a \<Rightarrow> ('a \<Rightarrow> 'e + 'b) \<Rightarrow> 'e + 'b" where
  "and_then m f = (case m of Inl e \<Rightarrow> Inl e | Inr v \<Rightarrow> f v)"

text \<open>
  The values \<^verbatim>\<open>filter_schemes\<close> reads from the form before its loop (the local
  variables \<^verbatim>\<open>age\<close>, \<^verbatim>\<open>caste\<close>, \<^verbatim>\<open>gender\<close>, \<^verbatim>\<open>income\<close>, \<^verbatim>\<open>occupation\<close>,
  \<^verbatim>\<open>location\<close>).
\<close>

record user =
  u_age :: int
  u_caste :: string
  u_gender :: string
  u_income :: int
  u_occupation :: string
  u_location :: string

text \<open>\<^verbatim>\<open>int(user_input.get(k))\<close>: \<^verbatim>\<open>int(None)\<close> raises \<^verbatim>\<open>TypeError\<close>.\<close>

definition int_field :: "form \<Rightarrow> string \<Rightarrow> py_error + int" where
  "int_field data k =
     (case form_get data k of
        None \<Rightarrow> Inl TypeError
      | Some s \<Rightarrow> (case py_int s of None \<Rightarrow> Inl ValueError | Some n \<Rightarrow> Inr n))"

text \<open>
  \<^verbatim>\<open>user_input.get(k, "").lower()\<close>: the default is used for a missing key only; a
  key bound to \<^verbatim>\<open>None\<close> gives \<^verbatim>\<open>None\<close>, which has no \<^verbatim>\<open>lower\<close>.
\<close>

definition lower_field :: "form \<Rightarrow> string \<Rightarrow> py_error + string" where
  "lower_field data k =
     (case data k of
        None \<Rightarrow> Inr (py_lower [])
      | Some None \<Rightarrow> Inl AttributeError
      | Some (Some s) \<Rightarrow> Inr (py_lower s))"

definition user_values :: "form \<Rightarrow> py_error + user" where
  "user_values user_input =
     and_then (int_field user_input ''age'') (\<lambda>age.
     and_then (lower_field user_input ''caste'') (\<lambda>caste.
     and_then (lower_field user_input ''gender'') (\<lambda>gender.
     and_then (int_field user_input ''income'') (\<lambda>income.
     and_then (lower_field user_input ''occupation'') (\<lambda>occupation.
     and_then (lower_field user_input ''location'') (\<lambda>location.
       Inr \<lparr>u_age = age, u_caste = caste, u_gender = gender, u_income = income,
            u_occupation = occupation, u_location = location\<rparr>))))))"

text \<open>
  Iterating a decoded value in a comprehension: a list gives its elements, a string its
  characters, a dict its keys; nothing else is iterable.
\<close>

fun py_iter :: "json \<Rightarrow> py_error + json list" where
  "py_iter (JList xs) = Inr xs"
| "py_iter (JStr s) = Inr (map (\<lambda>c. JStr [c]) s)"
| "py_iter (JObj kvs) = Inr (map (\<lambda>kv. JStr (fst kv)) kvs)"
| "py_iter _ = Inl TypeError"

text \<open>\<^verbatim>\<open>[g.lower() for g in xs]\<close>: the first element without \<^verbatim>\<open>lower\<close> raises.\<close>

fun lower_all :: "json list \<Rightarrow> py_error + string list" where
  "lower_all [] = Inr []"
| "lower_all (x # xs) =
     and_then (lower_of x) (\<lambda>l. and_then (lower_all xs) (\<lambda>ls. Inr (l # ls)))"

text \<open>
  Each numbered block of the loop body takes the current value of \<^verbatim>\<open>is_eligible\<close> and
  gives its value after the block, or the exception the block raises.
\<close>

definition age_block :: "json \<Rightarrow> int \<Rightarrow> bool \<Rightarrow> py_error + bool" where
  "age_block elig age is_eligible =
     and_then (py_get elig ''age_range'' JNull) (\<lambda>age_range.
       if truthy age_range
       then and_then (in_range age_range age) (\<lambda>c.
              Inr (if \<not> c then False else is_eligible))
       else Inr is_eligible)"

text \<open>
  Blocks 2, 3, 5 and 6 are the same code up to the key, the sentinel and the user's
  value.
\<close>

definition member_block :: "string \<Rightarrow> string \<Rightarrow> json \<Rightarrow> string \<Rightarrow> bool \<Rightarrow> py_error + bool" where
  "member_block key sentinel elig uval is_eligible =
     and_then (py_get elig key (JList [])) (\<lambda>v.
     and_then (py_iter v) (\<lambda>items.
     and_then (lower_all items) (\<lambda>names.
       Inr (if names \<noteq> [] \<and> sentinel \<notin> set names \<and> uval \<notin> set names
            then False else is_eligible))))"

definition gender_block :: "json \<Rightarrow> string \<Rightarrow> bool \<Rightarrow> py_error + bool" where
  "gender_block = member_block ''gender'' ''all''"

definition caste_block :: "json \<Rightarrow> string \<Rightarrow> bool \<Rightarrow> py_error + bool" where
  "caste_block = member_block ''caste'' ''all''"

definition occupation_block :: "json \<Rightarrow> string \<Rightarrow> bool \<Rightarrow> py_error + bool" where
  "occupation_block = member_block ''occupation'' ''any''"

definition location_block :: "json \<Rightarrow> string \<Rightarrow> bool \<Rightarrow> py_error + bool" where
  "location_block = member_block ''location'' ''all''"

fun is_two_list :: "json \<Rightarrow> bool" where
  "is_two_list (JList xs) = (length xs = 2)"
| "is_two_list _ = False"

definition income_block :: "json \<Rightarrow> int \<Rightarrow> bool \<Rightarrow> py_error + bool" where
  "income_block elig income is_eligible =
     and_then (py_get elig ''income_limit'' JNull) (\<lambda>scheme_income_limit.
       if scheme_income_limit \<noteq> JNull
       then if as_number scheme_income_limit \<noteq> None
            then and_then (int_gt income scheme_income_limit) (\<lambda>c.
                   Inr (if c then False else is_eligible))
            else if is_two_list scheme_income_limit
            then and_then (in_range scheme_income_limit income) (\<lambda>c.
                   Inr (if \<not> c then False else is_eligible))
            else Inr is_eligible
       else Inr is_eligible)"

text \<open>
  The loop body up to \<^verbatim>\<open>if is_eligible\<close>: all six blocks run, also after one of them
  has cleared the flag.
\<close>

definition scheme_eligible :: "user \<Rightarrow> json \<Rightarrow> py_error + bool" where
  "scheme_eligible u scheme =
     and_then (py_get scheme ''eligibility'' (JObj [])) (\<lambda>elig.
     and_then (age_block elig (u_age u) True) (\<lambda>e1.
     and_then (gender_block elig (u_gender u) e1) (\<lambda>e2.
     and_then (caste_block elig (u_caste u) e2) (\<lambda>e3.
     and_then (income_block elig (u_income u) e3) (\<lambda>e4.
     and_then (occupation_block elig (u_occupation u) e4) (\<lambda>e5.
       location_block elig (u_location u) e5))))))"

fun filter_loop :: "user \<Rightarrow> json list \<Rightarrow> json list \<Rightarrow> py_error + json list" where
  "filter_loop u [] filtered = Inr filtered"
| "filter_loop u (scheme # rest) filtered =
     and_then (scheme_eligible u scheme) (\<lambda>is_eligible.
       filter_loop u rest (if is_eligible then filtered @ [scheme] else filtered))"

text \<open>
  \<^verbatim>\<open>filter_schemes\<close> returns the dict \<^verbatim>\<open>{"error": message}\<close> or the list
  \<^verbatim>\<open>filtered\<close>.
\<close>

datatype filter_result = Error string | Schemes "json list"

definition filter_schemes :: "json list \<Rightarrow> form \<Rightarrow> py_error + filter_result" where
  "filter_schemes schemes user_input =
     (case validate_input user_input of
        Invalid validation_result \<Rightarrow> Inr (Error validation_result)
      | Valid \<Rightarrow>
          and_then (user_values user_input) (\<lambda>u.
          and_then (filter_loop u schemes []) (\<lambda>filtered. Inr (Schemes filtered))))"

section \<open>The second step\<close>

text \<open>\<^verbatim>\<open>d[k]\<close> and \<^verbatim>\<open>d[k] = v\<close> for a string key.\<close>

fun py_item :: "json \<Rightarrow> string \<Rightarrow> py_error + json" where
  "py_item (JObj kvs) k = (case map_of kvs k of None \<Rightarrow> Inl KeyError | Some v \<Rightarrow> Inr v)"
| "py_item _ k = Inl TypeError"

text \<open>
  Assignment to a key keeps the key's place when the dict has it and appends the key
  otherwise.
\<close>

fun dict_set :: "(string \<times> json) list \<Rightarrow> string \<Rightarrow> json \<Rightarrow> (string \<times> json) list" where
  "dict_set [] k v = [(k, v)]"
| "dict_set (p # ps) k v = (if fst p = k then (k, v) # ps else p # dict_set ps k v)"

fun py_setitem :: "json \<Rightarrow> string \<Rightarrow> json \<Rightarrow> py_error + json" where
  "py_setitem (JObj kvs) k v = Inr (JObj (dict_set kvs k v))"
| "py_setitem _ k v = Inl TypeError"

text \<open>\<^verbatim>\<open>answers.get(k, "")\<close>; the answers are strings.\<close>

definition answer_get :: "(string \<Rightarrow> string option) \<Rightarrow> string \<Rightarrow> string" where
  "answer_get answers k = (case answers k of None \<Rightarrow> [] | Some a \<Rightarrow> a)"

text \<open>The condition \<^verbatim>\<open>step2 and step2.get("question")\<close>, as a truth value.\<close>

definition has_question :: "json \<Rightarrow> py_error + bool" where
  "has_question step2 =
     (if truthy step2
      then and_then (py_get step2 ''question'' JNull) (\<lambda>q. Inr (truthy q))
      else Inr False)"

text \<open>
  The loop body: the scheme after the assignment to \<^verbatim>\<open>scheme["final_eligible"]\<close>, or
  the exception raised before it. \<open>to_str\<close> stands for Python's \<^verbatim>\<open>str\<close> on the decoded
  identifier; the text it gives for a float, a list or a dict is not modelled, so it is
  a parameter, and \<open>py_str\<close> below is what it gives for the other values.
\<close>

definition step2_scheme ::
  "(json \<Rightarrow> string) \<Rightarrow> (string \<Rightarrow> string option) \<Rightarrow> json \<Rightarrow> py_error + json" where
  "step2_scheme to_str answers scheme =
     and_then (py_get scheme ''step2_question'' JNull) (\<lambda>step2.
     and_then (has_question step2) (\<lambda>asked.
       if asked
       then and_then (py_item scheme ''id'') (\<lambda>ident.
            let question_id = to_str ident;
                user_ans = py_lower (answer_get answers question_id)
            in and_then (py_get step2 ''expected_answer'' (JStr [])) (\<lambda>e.
               and_then (lower_of e) (\<lambda>expected.
                 py_setitem scheme ''final_eligible'' (JBool (user_ans = expected)))))
       else py_setitem scheme ''final_eligible'' (JBool True)))"

text \<open>
  \<^verbatim>\<open>evaluate_step2\<close> mutates the dicts of the list it is given and returns that list.
  The model returns the list as it is when the call ends, and the exception if one ended
  it: the schemes before the raising one are already flagged then.
\<close>

fun evaluate_step2 ::
  "(json \<Rightarrow> string) \<Rightarrow> json list \<Rightarrow> (string \<Rightarrow> string option) \<Rightarrow> json list \<times> py_error option" where
  "evaluate_step2 to_str [] answers = ([], None)"
| "evaluate_step2 to_str (scheme # rest) answers =
     (case step2_scheme to_str answers scheme of
        Inl e \<Rightarrow> (scheme # rest, Some e)
      | Inr scheme' \<Rightarrow>
          (case evaluate_step2 to_str rest answers of
             (rest', r) \<Rightarrow> (scheme' # rest', r)))"

text \<open>\<^verbatim>\<open>str(x)\<close> for \<^verbatim>\<open>None\<close>, a \<^verbatim>\<open>bool\<close>, an \<^verbatim>\<open>int\<close> and a \<^verbatim>\<open>str\<close>.\<close>

fun nat_digits :: "nat \<Rightarrow> string" where
  "nat_digits n =
     (if n < 10 then [char_of (48 + n)]
      else nat_digits (n div 10) @ [char_of (48 + n mod 10)])"

definition int_text :: "int \<Rightarrow> string" where
  "int_text i = (if i < 0 then CHR ''-'' # nat_digits (nat (- i)) else nat_digits (nat i))"

fun py_str :: "json \<Rightarrow> string option" where
  "py_str JNull = Some ''None''"
| "py_str (JBool b) = Some (if b then ''True'' else ''False'')"
| "py_str (JInt i) = Some (int_text i)"
| "py_str (JStr s) = Some s"
| "py_str _ = None"

section \<open>The properties, stated\<close>

subsection \<open>Conditions of the validator\<close>

text \<open>
  A field is missing when the form has no value for it or the empty string; it is
  non-numeric when \<^verbatim>\<open>int\<close> rejects its value.
\<close>

definition missing :: "form \<Rightarrow> string \<Rightarrow> bool" where
  "missing data k = (form_get data k = None \<or> form_get data k = Some [])"

definition numeric_value :: "form \<Rightarrow> string \<Rightarrow> int option" where
  "numeric_value data k = (case form_get data k of None \<Rightarrow> None | Some s \<Rightarrow> py_int s)"

definition non_numeric :: "form \<Rightarrow> string \<Rightarrow> bool" where
  "non_numeric data k = (numeric_value data k = None)"

definition age_outside :: "form \<Rightarrow> bool" where
  "age_outside data =
     (case numeric_value data ''age'' of None \<Rightarrow> False | Some a \<Rightarrow> a < 0 \<or> 150 < a)"

definition income_negative :: "form \<Rightarrow> bool" where
  "income_negative data =
     (case numeric_value data ''income'' of None \<Rightarrow> False | Some i \<Rightarrow> i < 0)"

subsection \<open>Schemes of the data model\<close>

text \<open>
  A scheme of the data model is a record; its criteria group \<^verbatim>\<open>eligibility\<close>, when
  present, is a record in which \<^verbatim>\<open>age_range\<close> is empty or a pair of numbers, each of
  \<^verbatim>\<open>gender\<close>, \<^verbatim>\<open>caste\<close>, \<^verbatim>\<open>occupation\<close>, \<^verbatim>\<open>location\<close> is a list of strings and
  \<^verbatim>\<open>income_limit\<close> is a number or a list of numbers. Every field is optional.
\<close>

definition is_number :: "json \<Rightarrow> bool" where
  "is_number v = (as_number v \<noteq> None)"

fun is_str :: "json \<Rightarrow> bool" where
  "is_str (JStr s) = True"
| "is_str _ = False"

fun age_range_ok :: "json \<Rightarrow> bool" where
  "age_range_ok (JList []) = True"
| "age_range_ok (JList [a, b]) = (is_number a \<and> is_number b)"
| "age_range_ok _ = False"

fun str_list :: "json \<Rightarrow> bool" where
  "str_list (JList xs) = list_all is_str xs"
| "str_list _ = False"

fun income_limit_ok :: "json \<Rightarrow> bool" where
  "income_limit_ok (JList xs) = list_all is_number xs"
| "income_limit_ok v = is_number v"

definition field_ok :: "(json \<Rightarrow> bool) \<Rightarrow> (string \<times> json) list \<Rightarrow> string \<Rightarrow> bool" where
  "field_ok P kvs k = (case map_of kvs k of None \<Rightarrow> True | Some v \<Rightarrow> P v)"

fun eligibility_ok :: "json \<Rightarrow> bool" where
  "eligibility_ok (JObj kvs) =
     (field_ok age_range_ok kvs ''age_range'' \<and>
      field_ok str_list kvs ''gender'' \<and>
      field_ok str_list kvs ''caste'' \<and>
      field_ok income_limit_ok kvs ''income_limit'' \<and>
      field_ok str_list kvs ''occupation'' \<and>
      field_ok str_list kvs ''location'')"
| "eligibility_ok _ = False"

fun scheme_ok :: "json \<Rightarrow> bool" where
  "scheme_ok (JObj kvs) = field_ok eligibility_ok kvs ''eligibility''"
| "scheme_ok _ = False"

subsection \<open>The six checks\<close>

text \<open>
  The checks as the specification words them, on the criteria group of a scheme of the
  data model and the values the user submitted. They are stated without reference to the
  code of the loop.
\<close>

text \<open>The criteria group of a scheme; an absent group has no criterion.\<close>

fun criteria :: "json \<Rightarrow> (string \<times> json) list" where
  "criteria (JObj kvs) = (case map_of kvs ''eligibility'' of Some (JObj e) \<Rightarrow> e | _ \<Rightarrow> [])"
| "criteria _ = []"

definition criterion :: "json \<Rightarrow> string \<Rightarrow> json option" where
  "criterion scheme k = map_of (criteria scheme) k"

text \<open>A pair \<open>[min, max]\<close> of numbers, and inclusive membership in it.\<close>

fun bounds :: "json \<Rightarrow> (pyfloat \<times> pyfloat) option" where
  "bounds (JList [lo, hi]) =
     (case as_number lo of
        None \<Rightarrow> None
      | Some l \<Rightarrow> (case as_number hi of None \<Rightarrow> None | Some h \<Rightarrow> Some (l, h)))"
| "bounds _ = None"

definition between :: "pyfloat \<Rightarrow> int \<Rightarrow> pyfloat \<Rightarrow> bool" where
  "between l n h = (float_le l (Finite (of_int n)) \<and> float_le (Finite (of_int n)) h)"

text \<open>Age: no range, an empty one, or \<open>min \<le> age \<le> max\<close>.\<close>

fun age_in_range :: "int \<Rightarrow> json option \<Rightarrow> bool" where
  "age_in_range n None = True"
| "age_in_range n (Some v) =
     (v = JList [] \<or> (case bounds v of None \<Rightarrow> False | Some (l, h) \<Rightarrow> between l n h))"

text \<open>
  Gender, caste, occupation, location: no set, an empty one, a set holding the sentinel,
  or a set holding the user's value; texts are compared without regard to letter case.
\<close>

fun text_matches :: "string \<Rightarrow> json \<Rightarrow> bool" where
  "text_matches s (JStr t) = (py_lower t = py_lower s)"
| "text_matches s _ = False"

fun accepts :: "string \<Rightarrow> string \<Rightarrow> json option \<Rightarrow> bool" where
  "accepts sentinel s None = True"
| "accepts sentinel s (Some (JList xs)) =
     (xs = [] \<or> list_ex (text_matches sentinel) xs \<or> list_ex (text_matches s) xs)"
| "accepts sentinel s (Some _) = False"

text \<open>
  Income: no limit; a scalar limit that the income does not exceed (no income exceeds
  \<^verbatim>\<open>NaN\<close>); a pair \<open>[min, max]\<close> containing the income. Anything else is no constraint.
\<close>

fun income_within :: "int \<Rightarrow> json option \<Rightarrow> bool" where
  "income_within n None = True"
| "income_within n (Some v) =
     (case as_number v of
        Some x \<Rightarrow> x = NaN \<or> float_le (Finite (of_int n)) x
      | None \<Rightarrow> (case bounds v of None \<Rightarrow> True | Some (l, h) \<Rightarrow> between l n h))"

text \<open>
  What the user submitted: the text of a field, and the integer \<^verbatim>\<open>int\<close> reads from it.
  A form that validates has both for every field used here.
\<close>

definition field_text :: "form \<Rightarrow> string \<Rightarrow> string" where
  "field_text data k = (case form_get data k of None \<Rightarrow> [] | Some s \<Rightarrow> s)"

definition field_number :: "form \<Rightarrow> string \<Rightarrow> int" where
  "field_number data k = (case numeric_value data k of None \<Rightarrow> 0 | Some n \<Rightarrow> n)"

text \<open>A scheme is eligible for a user when all six checks pass.\<close>

definition eligible :: "form \<Rightarrow> json \<Rightarrow> bool" where
  "eligible user_input scheme =
     (age_in_range (field_number user_input ''age'') (criterion scheme ''age_range'') \<and>
      accepts ''all'' (field_text user_input ''gender'') (criterion scheme ''gender'') \<and>
      accepts ''all'' (field_text user_input ''caste'') (criterion scheme ''caste'') \<and>
      income_within (field_number user_input ''income'') (criterion scheme ''income_limit'') \<and>
      accepts ''any'' (field_text user_input ''occupation'') (criterion scheme ''occupation'') \<and>
      accepts ''all'' (field_text user_input ''location'') (criterion scheme ''location''))"

text \<open>
  For the proofs: a block of the loop passes when it leaves a set flag set, that is, it
  neither clears \<^verbatim>\<open>is_eligible\<close> nor raises.
\<close>

definition passes :: "(bool \<Rightarrow> py_error + bool) \<Rightarrow> bool" where
  "passes block = (block True = Inr True)"

definition all_checks_pass :: "user \<Rightarrow> json \<Rightarrow> bool" where
  "all_checks_pass u scheme =
     (case py_get scheme ''eligibility'' (JObj []) of
        Inl e \<Rightarrow> False
      | Inr elig \<Rightarrow>
          passes (age_block elig (u_age u)) \<and>
          passes (gender_block elig (u_gender u)) \<and>
          passes (caste_block elig (u_caste u)) \<and>
          passes (income_block elig (u_income u)) \<and>
          passes (occupation_block elig (u_occupation u)) \<and>
          passes (location_block elig (u_location u)))"

text \<open>
  The typing conditions on the criteria alone: \<^verbatim>\<open>age_range\<close> a pair of numbers, the
  four sets lists of strings, \<^verbatim>\<open>income_limit\<close> a number or a list of numbers, each
  when present. They say nothing of the criteria group itself.
\<close>

fun number_pair :: "json \<Rightarrow> bool" where
  "number_pair (JList [a, b]) = (is_number a \<and> is_number b)"
| "number_pair _ = False"

definition listed_conditions :: "json \<Rightarrow> bool" where
  "listed_conditions scheme =
     (field_ok number_pair (criteria scheme) ''age_range'' \<and>
      field_ok str_list (criteria scheme) ''gender'' \<and>
      field_ok str_list (criteria scheme) ''caste'' \<and>
      field_ok str_list (criteria scheme) ''occupation'' \<and>
      field_ok str_list (criteria scheme) ''location'' \<and>
      field_ok income_limit_ok (criteria scheme) ''income_limit'')"

text \<open>
  A set axis is unconstrained when it is absent, empty, or a list of strings one of which
  is the sentinel (in any letter case).
\<close>

fun unconstrained :: "string \<Rightarrow> json option \<Rightarrow> bool" where
  "unconstrained sentinel None = True"
| "unconstrained sentinel (Some (JList xs)) =
     (xs = [] \<or> (list_all is_str xs \<and> list_ex (\<lambda>x. lower_of x = Inr sentinel) xs))"
| "unconstrained sentinel (Some _) = False"

subsection \<open>The second step\<close>

text \<open>
  For the second step a scheme is a record whose \<^verbatim>\<open>step2_question\<close>, when present, is
  null or a record with a string (or no) \<^verbatim>\<open>expected_answer\<close>, and which then has an
  \<^verbatim>\<open>id\<close>.
\<close>

fun step2_ok :: "json \<Rightarrow> bool" where
  "step2_ok (JObj kvs) =
     (case map_of kvs ''step2_question'' of
        None \<Rightarrow> True
      | Some JNull \<Rightarrow> True
      | Some (JObj q) \<Rightarrow> map_of kvs ''id'' \<noteq> None \<and> field_ok is_str q ''expected_answer''
      | Some _ \<Rightarrow> False)"
| "step2_ok _ = False"

text \<open>The scheme has a step-2 question: the group is there and its question text is not empty.\<close>

fun has_step2_question :: "json \<Rightarrow> bool" where
  "has_step2_question (JObj kvs) =
     (case map_of kvs ''step2_question'' of
        Some (JObj q) \<Rightarrow> (case map_of q ''question'' of None \<Rightarrow> False | Some t \<Rightarrow> truthy t)
      | _ \<Rightarrow> False)"
| "has_step2_question _ = False"

text \<open>The field \<^verbatim>\<open>step2_question\<close> is present on the scheme.\<close>

fun step2_present :: "json \<Rightarrow> bool" where
  "step2_present (JObj kvs) = (map_of kvs ''step2_question'' \<noteq> None)"
| "step2_present _ = False"

text \<open>The submitted and the expected answer; a missing one is the empty string.\<close>

fun submitted_answer :: "(json \<Rightarrow> string) \<Rightarrow> (string \<Rightarrow> string option) \<Rightarrow> json \<Rightarrow> string" where
  "submitted_answer to_str answers (JObj kvs) =
     (case map_of kvs ''id'' of
        None \<Rightarrow> []
      | Some ident \<Rightarrow> (case answers (to_str ident) of None \<Rightarrow> [] | Some a \<Rightarrow> a))"
| "submitted_answer to_str answers _ = []"

fun expected_answer :: "json \<Rightarrow> string" where
  "expected_answer (JObj kvs) =
     (case map_of kvs ''step2_question'' of
        Some (JObj q) \<Rightarrow> (case map_of q ''expected_answer'' of Some (JStr s) \<Rightarrow> s | _ \<Rightarrow> [])
      | _ \<Rightarrow> [])"
| "expected_answer _ = []"

definition answers_match :: "(json \<Rightarrow> string) \<Rightarrow> (string \<Rightarrow> string option) \<Rightarrow> json \<Rightarrow> bool" where
  "answers_match to_str answers scheme =
     (py_lower (submitted_answer to_str answers scheme) = py_lower (expected_answer scheme))"

text \<open>
  The flag the second step is to give: a scheme without a question is eligible, a scheme
  with one is eligible exactly when the answers match.
\<close>

definition expected_flag ::
  "(json \<Rightarrow> string) \<Rightarrow> (string \<Rightarrow> string option) \<Rightarrow> json \<Rightarrow> bool" where
  "expected_flag to_str answers scheme =
     (if has_step2_question scheme then answers_match to_str answers scheme else True)"

fun set_flag :: "json \<Rightarrow> bool \<Rightarrow> json" where
  "set_flag (JObj kvs) b = JObj (dict_set kvs ''final_eligible'' (JBool b))"
| "set_flag v b = v"

text \<open>The flag a scheme carries after the second step, if any.\<close>

fun final_eligible :: "json \<Rightarrow> json option" where
  "final_eligible (JObj kvs) = map_of kvs ''final_eligible''"
| "final_eligible _ = None"

subsection \<open>What the second step may change\<close>

fun field_of :: "json \<Rightarrow> string \<Rightarrow> json option" where
  "field_of (JObj kvs) k = map_of kvs k"
| "field_of _ k = None"

text \<open>\<open>y\<close> is \<open>x\<close>, or \<open>x\<close> after \<^verbatim>\<open>x["final_eligible"]\<close> has been given a truth value.\<close>

definition same_but_flag :: "json \<Rightarrow> json \<Rightarrow> bool" where
  "same_but_flag x y = (y = x \<or> y = set_flag x True \<or> y = set_flag x False)"

subsection \<open>Concrete inputs\<close>

text \<open>A form whose fields all carry strings, and the example of the specification.\<close>

definition form_of :: "(string \<times> string) list \<Rightarrow> form" where
  "form_of kvs k = map_option Some (map_of kvs k)"

definition example_form :: "string \<Rightarrow> string \<Rightarrow> form" where
  "example_form age income =
     form_of [(''age'', age), (''gender'', ''female''), (''income'', income), (''caste'', ''x''),
              (''district'', ''y''), (''occupation'', ''z''), (''location'', ''w'')]"

definition example_scheme :: json where
  "example_scheme =
     JObj [(''id'', JInt 1),
           (''eligibility'',
            JObj [(''age_range'', JList [JInt 18, JInt 60]),
                  (''gender'', JList [JStr ''all'']),
                  (''income_limit'', JInt 50000)])]"

text \<open>\<^verbatim>\<open>str\<close> where \<open>py_str\<close> gives it; the identifiers below are integers.\<close>

definition str_known :: "json \<Rightarrow> string" where
  "str_known v = (case py_str v of None \<Rightarrow> [] | Some s \<Rightarrow> s)"

definition elder_scheme :: json where
  "elder_scheme =
     JObj [(''id'', JInt 2),
           (''eligibility'', JObj [(''age_range'', JList [JInt 60, JInt 100])])]"

text \<open>Criteria in which every axis is absent, empty or holds its sentinel.\<close>

definition open_criteria :: "(string \<times> json) list" where
  "open_criteria =
     [(''gender'', JList [JStr ''All'']), (''caste'', JList []),
      (''occupation'', JList [JStr ''farmer'', JStr ''any'']),
      (''location'', JList [JStr ''ALL'']), (''income_limit'', JList [])]"

text \<open>A scheme that asks a question, and one whose question text is empty.\<close>

definition asked_scheme :: json where
  "asked_scheme =
     JObj [(''id'', JInt 2),
           (''step2_question'',
            JObj [(''question'', JStr ''Do you own land?''),
                  (''expected_answer'', JStr ''Yes'')])]"

definition blank_question_scheme :: json where
  "blank_question_scheme =
     JObj [(''id'', JInt 1),
           (''step2_question'',
            JObj [(''question'', JStr ''''), (''expected_answer'', JStr ''yes'')])]"

text \<open>
  A user written in mixed case, a scheme matching on every axis, and a list in which six
  further schemes each fail exactly one check.
\<close>

definition applicant_form :: form where
  "applicant_form =
     form_of [(''age'', ''30''), (''gender'', ''Female''), (''income'', ''40000''),
              (''caste'', ''OBC''), (''district'', ''y''), (''occupation'', ''Farmer''),
              (''location'', ''Rural'')]"

definition scheme_with :: "int \<Rightarrow> (string \<times> json) list \<Rightarrow> json" where
  "scheme_with n crit = JObj [(''id'', JInt n), (''eligibility'', JObj crit)]"

definition matching_scheme :: json where
  "matching_scheme =
     scheme_with 3
       [(''age_range'', JList [JInt 18, JInt 60]), (''gender'', JList [JStr ''FEMALE'']),
        (''caste'', JList [JStr ''sc'', JStr ''obc'']), (''income_limit'', JInt 40000),
        (''occupation'', JList [JStr ''farmer'']), (''location'', JList [JStr ''RURAL''])]"

definition applicant_schemes :: "json list" where
  "applicant_schemes =
     [scheme_with 4 [(''age_range'', JList [JInt 60, JInt 100])],
      matching_scheme,
      scheme_with 5 [(''gender'', JList [JStr ''male''])],
      scheme_with 6 [(''caste'', JList [JStr ''sc'', JStr ''st''])],
      scheme_with 7 [(''income_limit'', JInt 39999)],
      scheme_with 8 [(''occupation'', JList [JStr ''student''])],
      example_scheme,
      scheme_with 9 [(''location'', JList [JStr ''urban''])]]"

text \<open>A scheme whose criteria group is \<^verbatim>\<open>null\<close>.\<close>

definition null_criteria_scheme :: json where
  "null_criteria_scheme = JObj [(''id'', JInt 1), (''eligibility'', JNull)]"

section \<open>The validator, proved\<close>

text \<open>Unfolding sets for evaluating the definitions on concrete inputs.\<close>

lemmas string_eval = py_lower_def lower_char_def char_of_def bit_Suc_0_iff
lemmas int_eval = py_int_def split_sign_def strip_def is_space_def parse_decimal_def
  digit_val_def int_max_str_digits_def
lemmas form_eval = form_of_def example_form_def form_get_def missing_def numeric_value_def
  non_numeric_def age_outside_def income_negative_def
lemmas block_eval = all_checks_pass_def passes_def age_block_def gender_block_def
  caste_block_def occupation_block_def location_block_def member_block_def income_block_def
  in_range_def le_int_def int_le_def int_gt_def

lemma falsy_missing: "falsy (form_get data k) = missing data k"
  by (cases "form_get data k") (simp_all add: missing_def)

lemma display_names:
  "py_title (py_replace (CHR ''_'') (CHR '' '') ''gender'') = ''Gender''"
  "py_title (py_replace (CHR ''_'') (CHR '' '') ''caste'') = ''Caste''"
  "py_title (py_replace (CHR ''_'') (CHR '' '') ''district'') = ''District''"
  "py_title (py_replace (CHR ''_'') (CHR '' '') ''occupation'') = ''Occupation''"
  "py_title (py_replace (CHR ''_'') (CHR '' '') ''location'') = ''Location''"
  by code_simp+

lemma required_loop_fields:
  "required_loop data required_fields =
     (if missing data ''gender'' then Invalid ''Missing required field: Gender.''
      else if missing data ''caste'' then Invalid ''Missing required field: Caste.''
      else if missing data ''district'' then Invalid ''Missing required field: District.''
      else if missing data ''occupation'' then Invalid ''Missing required field: Occupation.''
      else if missing data ''location'' then Invalid ''Missing required field: Location.''
      else Valid)"
  by (simp add: required_fields_def falsy_missing display_names)

lemma validate_input_sections:
  "validate_input data =
     (if missing data ''age'' then Invalid ''Age is a required field.''
      else if non_numeric data ''age'' then Invalid ''Invalid age value. Please enter a number.''
      else if age_outside data then Invalid ''Age must be between 0 and 150.''
      else if missing data ''income'' then Invalid ''Annual Income is a required field.''
      else if non_numeric data ''income''
        then Invalid ''Invalid annual income value. Please select a valid range.''
      else if income_negative data then Invalid ''Annual Income cannot be negative.''
      else required_loop data required_fields)"
proof (cases "form_get data ''age''")
  case None
  then show ?thesis by (simp add: validate_input_def missing_def)
next
  case a: (Some age_str)
  show ?thesis
  proof (cases "age_str = []")
    case True
    with a show ?thesis by (simp add: validate_input_def missing_def)
  next
    case a': False
    show ?thesis
    proof (cases "py_int age_str")
      case None
      with a a' show ?thesis
        by (simp add: validate_input_def missing_def non_numeric_def numeric_value_def)
    next
      case age: (Some age)
      show ?thesis
      proof (cases "form_get data ''income''")
        case None
        with a a' age show ?thesis
          by (simp add: validate_input_def missing_def non_numeric_def numeric_value_def
                        age_outside_def not_le)
      next
        case i: (Some income_str)
        show ?thesis
        proof (cases "income_str = []")
          case True
          with a a' age i show ?thesis
            by (simp add: validate_input_def missing_def non_numeric_def numeric_value_def
                          age_outside_def not_le)
        next
          case i': False
          show ?thesis
          proof (cases "py_int income_str")
            case None
            with a a' age i i' show ?thesis
              by (simp add: validate_input_def missing_def non_numeric_def numeric_value_def
                            age_outside_def not_le)
          next
            case (Some income)
            with a a' age i i' show ?thesis
              by (simp add: validate_input_def missing_def non_numeric_def numeric_value_def
                            age_outside_def income_negative_def not_le)
          qed
        qed
      qed
    qed
  qed
qed

text \<open>What a valid form guarantees to the filter.\<close>

lemma validated_numbers:
  assumes "validate_input data = Valid"
  shows "\<exists>a i. numeric_value data ''age'' = Some a \<and> numeric_value data ''income'' = Some i"
proof -
  have "\<not> non_numeric data ''age''" "\<not> non_numeric data ''income''"
    using assms unfolding validate_input_sections by (simp_all split: if_splits)
  then show ?thesis by (auto simp: non_numeric_def)
qed

lemma validated_fields:
  assumes "validate_input data = Valid"
  shows "\<not> missing data ''caste''" "\<not> missing data ''gender''"
    and "\<not> missing data ''occupation''" "\<not> missing data ''location''"
proof -
  have "required_loop data required_fields = Valid"
    using assms unfolding validate_input_sections by (simp split: if_splits)
  then show "\<not> missing data ''caste''" "\<not> missing data ''gender''"
    and "\<not> missing data ''occupation''" "\<not> missing data ''location''"
    unfolding required_loop_fields by (simp_all split: if_splits)
qed

text \<open>
  C3: \<^verbatim>\<open>validate_input\<close> reports the first failing condition only, in the order age,
  income, gender, caste, district, occupation, location, and succeeds when none fails.
  The age fails when it is missing, non-numeric or outside 0..150; the income fails when
  it is missing, non-numeric or negative.
\<close>

theorem validate_input_first_failure:
  "validate_input data =
     (if missing data ''age'' then Invalid ''Age is a required field.''
      else if non_numeric data ''age'' then Invalid ''Invalid age value. Please enter a number.''
      else if age_outside data then Invalid ''Age must be between 0 and 150.''
      else if missing data ''income'' then Invalid ''Annual Income is a required field.''
      else if non_numeric data ''income''
        then Invalid ''Invalid annual income value. Please select a valid range.''
      else if income_negative data then Invalid ''Annual Income cannot be negative.''
      else if missing data ''gender'' then Invalid ''Missing required field: Gender.''
      else if missing data ''caste'' then Invalid ''Missing required field: Caste.''
      else if missing data ''district'' then Invalid ''Missing required field: District.''
      else if missing data ''occupation'' then Invalid ''Missing required field: Occupation.''
      else if missing data ''location'' then Invalid ''Missing required field: Location.''
      else Valid)"
  unfolding validate_input_sections required_loop_fields ..

text \<open>
  A form whose age is out of range, whose income is negative and whose other fields are
  all missing gets the age error.
\<close>

theorem validate_input_first_failure_witness:
  "validate_input (form_of [(''age'', ''200''), (''income'', ''-5'')]) =
     Invalid ''Age must be between 0 and 150.''"
  using validate_input_first_failure [of "form_of [(''age'', ''200''), (''income'', ''-5'')]"]
  by (simp add: form_eval int_eval)

section \<open>The filter, proved\<close>

lemma and_then_Inr [simp]: "and_then (Inr v) f = f v"
  by (simp add: and_then_def)

lemma and_then_Inl [simp]: "and_then (Inl e) f = Inl e"
  by (simp add: and_then_def)

lemma passes_flag:
  assumes "\<And>flag. block flag = Inr (flag \<and> c)"
  shows "block flag = Inr (flag \<and> passes block)"
  using assms [of True] assms [of flag] by (simp add: passes_def)

lemma in_range_pair:
  assumes "is_number a" "is_number b"
  shows "\<exists>c. in_range (JList [a, b]) n = Inr c"
  using assms by (auto simp: in_range_def le_int_def int_le_def is_number_def)

lemma age_block_typed:
  assumes "field_ok age_range_ok kvs ''age_range''"
  shows "\<exists>c. \<forall>flag. age_block (JObj kvs) n flag = Inr (flag \<and> c)"
proof (cases "map_of kvs ''age_range''")
  case None
  then show ?thesis by (intro exI [of _ True]) (simp add: age_block_def)
next
  case (Some v)
  with assms have ok: "age_range_ok v" by (simp add: field_ok_def)
  then consider "v = JList []" | a b where "v = JList [a, b]" "is_number a" "is_number b"
    by (cases v rule: age_range_ok.cases) auto
  then show ?thesis
  proof cases
    case 1
    with Some show ?thesis by (intro exI [of _ True]) (simp add: age_block_def)
  next
    case 2
    from in_range_pair [OF 2(2,3)] obtain c where "in_range v n = Inr c"
      using 2(1) by blast
    with Some 2(1) show ?thesis
      by (intro exI [of _ c]) (auto simp: age_block_def)
  qed
qed

lemma lower_all_strs:
  "list_all is_str xs \<Longrightarrow> \<exists>names. lower_all xs = Inr names \<and> length names = length xs"
proof (induction xs)
  case Nil
  then show ?case by simp
next
  case (Cons x xs)
  then obtain names where n: "lower_all xs = Inr names" "length names = length xs" by auto
  from Cons.prems obtain s where "x = JStr s" by (cases x) auto
  with n show ?case by simp
qed

lemma member_block_typed:
  assumes "field_ok str_list kvs key"
  shows "\<exists>c. \<forall>flag. member_block key sentinel (JObj kvs) uval flag = Inr (flag \<and> c)"
proof (cases "map_of kvs key")
  case None
  then show ?thesis by (intro exI [of _ True]) (simp add: member_block_def)
next
  case (Some v)
  with assms have "str_list v" by (simp add: field_ok_def)
  then obtain xs where v: "v = JList xs" and strs: "list_all is_str xs"
    by (cases v) auto
  from lower_all_strs [OF strs] obtain names where n: "lower_all xs = Inr names" by blast
  show ?thesis
    by (intro exI [of _ "\<not> (names \<noteq> [] \<and> sentinel \<notin> set names \<and> uval \<notin> set names)"])
       (simp add: member_block_def Some v n)
qed

lemma in_range_numbers:
  assumes "list_all is_number xs" "length xs = 2"
  shows "\<exists>c. in_range (JList xs) n = Inr c"
proof -
  from assms(2) obtain a b where "xs = [a, b]"
    by (cases xs; cases "tl xs") auto
  with assms(1) in_range_pair [of a b n] show ?thesis by simp
qed

lemma income_block_typed:
  assumes "field_ok income_limit_ok kvs ''income_limit''"
  shows "\<exists>c. \<forall>flag. income_block (JObj kvs) n flag = Inr (flag \<and> c)"
proof (cases "map_of kvs ''income_limit''")
  case None
  then show ?thesis by (intro exI [of _ True]) (simp add: income_block_def)
next
  case (Some v)
  with assms have ok: "income_limit_ok v" by (simp add: field_ok_def)
  show ?thesis
  proof (cases "as_number v")
    case num: (Some x)
    then have "v \<noteq> JNull" by auto
    with Some num show ?thesis
      by (intro exI [of _ "\<not> float_lt x (Finite (of_int n))"])
         (simp add: income_block_def int_gt_def)
  next
    case None
    with ok obtain xs where v: "v = JList xs" and nums: "list_all is_number xs"
      by (cases v) (auto simp: is_number_def)
    show ?thesis
    proof (cases "length xs = 2")
      case True
      from in_range_numbers [OF nums True] obtain c where "in_range v n = Inr c"
        using v by blast
      with Some v True show ?thesis
        by (intro exI [of _ c]) (auto simp: income_block_def)
    next
      case False
      with Some v show ?thesis by (intro exI [of _ True]) (simp add: income_block_def)
    qed
  qed
qed

lemma scheme_eligible_typed:
  assumes "scheme_ok scheme"
  shows "scheme_eligible u scheme = Inr (all_checks_pass u scheme)"
proof -
  from assms obtain kvs where s: "scheme = JObj kvs" and f: "field_ok eligibility_ok kvs ''eligibility''"
    by (cases scheme) auto
  define elig where "elig = (case map_of kvs ''eligibility'' of None \<Rightarrow> JObj [] | Some v \<Rightarrow> v)"
  have get: "py_get scheme ''eligibility'' (JObj []) = Inr elig"
    by (simp add: s elig_def)
  have "eligibility_ok elig"
    using f by (auto simp: elig_def field_ok_def split: option.splits)
  then obtain e where e: "elig = JObj e"
    and ok: "field_ok age_range_ok e ''age_range''" "field_ok str_list e ''gender''"
      "field_ok str_list e ''caste''" "field_ok income_limit_ok e ''income_limit''"
      "field_ok str_list e ''occupation''" "field_ok str_list e ''location''"
    by (cases elig) auto
  have b1: "age_block elig n flag = Inr (flag \<and> passes (age_block elig n))" for n flag
    using age_block_typed [OF ok(1)] unfolding e by (metis passes_flag)
  have b2: "gender_block elig x flag = Inr (flag \<and> passes (gender_block elig x))" for x flag
    using member_block_typed [OF ok(2)] unfolding e gender_block_def by (metis passes_flag)
  have b3: "caste_block elig x flag = Inr (flag \<and> passes (caste_block elig x))" for x flag
    using member_block_typed [OF ok(3)] unfolding e caste_block_def by (metis passes_flag)
  have b4: "income_block elig n flag = Inr (flag \<and> passes (income_block elig n))" for n flag
    using income_block_typed [OF ok(4)] unfolding e by (metis passes_flag)
  have b5: "occupation_block elig x flag = Inr (flag \<and> passes (occupation_block elig x))" for x flag
    using member_block_typed [OF ok(5)] unfolding e occupation_block_def by (metis passes_flag)
  have b6: "location_block elig x flag = Inr (flag \<and> passes (location_block elig x))" for x flag
    using member_block_typed [OF ok(6)] unfolding e location_block_def by (metis passes_flag)
  show ?thesis
    unfolding scheme_eligible_def all_checks_pass_def get
    by (simp add: b1 [of _ True] b2 b3 b4 b5 b6 conj_ac)
qed

lemma filter_loop_typed:
  "list_all scheme_ok schemes \<Longrightarrow>
   filter_loop u schemes filtered = Inr (filtered @ filter (all_checks_pass u) schemes)"
  by (induction schemes arbitrary: filtered) (simp_all add: scheme_eligible_typed)

lemma lower_field_present:
  "\<not> missing data k \<Longrightarrow> \<exists>s. lower_field data k = Inr s"
  by (auto simp: missing_def form_get_def lower_field_def split: option.splits)

lemma int_field_numeric:
  "numeric_value data k = Some n \<Longrightarrow> int_field data k = Inr n"
  by (auto simp: numeric_value_def int_field_def split: option.splits)

lemma user_values_valid:
  assumes "validate_input data = Valid"
  shows "\<exists>u. user_values data = Inr u"
proof -
  from validated_numbers [OF assms] obtain a i
    where "int_field data ''age'' = Inr a" "int_field data ''income'' = Inr i"
    by (auto dest: int_field_numeric)
  moreover from validated_fields [OF assms] obtain c g oc l
    where "lower_field data ''caste'' = Inr c" "lower_field data ''gender'' = Inr g"
      "lower_field data ''occupation'' = Inr oc" "lower_field data ''location'' = Inr l"
    by (metis lower_field_present)
  ultimately show ?thesis by (simp add: user_values_def)
qed

lemma filter_schemes_valid:
  assumes "validate_input user_input = Valid" "list_all scheme_ok schemes"
  shows "\<exists>u. user_values user_input = Inr u \<and>
             filter_schemes schemes user_input = Inr (Schemes (filter (all_checks_pass u) schemes))"
proof -
  from user_values_valid [OF assms(1)] obtain u where u: "user_values user_input = Inr u" ..
  show ?thesis
    by (intro exI [of _ u]) (simp add: u filter_schemes_def assms(1) filter_loop_typed [OF assms(2)])
qed

lemma filter_schemes_invalid:
  "validate_input user_input = Invalid msg \<Longrightarrow> filter_schemes schemes user_input = Inr (Error msg)"
  by (simp add: filter_schemes_def)

subsection \<open>The blocks decide the six checks\<close>

lemma in_range_bounds:
  "bounds v = Some (l, h) \<Longrightarrow> in_range v n = Inr (between l n h)"
  by (cases v rule: bounds.cases)
     (auto simp: in_range_def le_int_def int_le_def between_def split: option.splits)

lemma bounds_numbers:
  "is_number a \<Longrightarrow> is_number b \<Longrightarrow> \<exists>l h. bounds (JList [a, b]) = Some (l, h)"
  by (auto simp: is_number_def)

lemma age_block_check:
  assumes "field_ok age_range_ok kvs ''age_range''"
  shows "age_block (JObj kvs) n flag = Inr (flag \<and> age_in_range n (map_of kvs ''age_range''))"
proof (cases "map_of kvs ''age_range''")
  case None
  then show ?thesis by (simp add: age_block_def)
next
  case (Some v)
  with assms have "age_range_ok v" by (simp add: field_ok_def)
  then consider "v = JList []" | a b where "v = JList [a, b]" "is_number a" "is_number b"
    by (cases v rule: age_range_ok.cases) auto
  then show ?thesis
  proof cases
    case 1
    with Some show ?thesis by (simp add: age_block_def)
  next
    case 2
    from bounds_numbers [OF 2(2,3)] 2(1) obtain l h where b: "bounds v = Some (l, h)" by auto
    from 2(1) have "truthy v" "v \<noteq> JList []" by simp_all
    with Some b in_range_bounds [OF b, of n] show ?thesis
      by (auto simp: age_block_def)
  qed
qed

lemma lower_all_member:
  "list_all is_str xs \<Longrightarrow> lower_all xs = Inr names \<Longrightarrow>
   (py_lower s \<in> set names) = list_ex (text_matches s) xs"
proof (induction xs arbitrary: names)
  case Nil
  then show ?case by simp
next
  case (Cons x xs)
  from Cons.prems(1) obtain t where x: "x = JStr t" by (cases x) auto
  from Cons.prems(1) lower_all_strs [of xs] obtain ns where ns: "lower_all xs = Inr ns"
    by auto
  with Cons.prems(2) x have names: "names = py_lower t # ns" by simp
  from Cons.IH [OF _ ns] Cons.prems(1)
  have "(py_lower s \<in> set ns) = list_ex (text_matches s) xs" by simp
  with names x show ?case by auto
qed

lemma member_block_check:
  assumes "field_ok str_list kvs key" and "py_lower sentinel = sentinel"
  shows "member_block key sentinel (JObj kvs) (py_lower s) flag =
           Inr (flag \<and> accepts sentinel s (map_of kvs key))"
proof (cases "map_of kvs key")
  case None
  then show ?thesis by (simp add: member_block_def)
next
  case (Some v)
  with assms have "str_list v" by (simp add: field_ok_def)
  then obtain xs where v: "v = JList xs" and strs: "list_all is_str xs"
    by (cases v) auto
  from lower_all_strs [OF strs] obtain names
    where n: "lower_all xs = Inr names" and len: "length names = length xs" by blast
  from len have e: "(names = []) = (xs = [])" by auto
  have m1: "(sentinel \<in> set names) = list_ex (text_matches sentinel) xs"
    using lower_all_member [OF strs n, of sentinel] assms(2) by simp
  have m2: "(py_lower s \<in> set names) = list_ex (text_matches s) xs"
    by (rule lower_all_member [OF strs n])
  show ?thesis
    by (auto simp: member_block_def Some v n e m1 m2)
qed

lemma not_float_lt: "(\<not> float_lt x (Finite q)) = (x = NaN \<or> float_le (Finite q) x)"
  by (cases x) auto

lemma income_block_check:
  assumes "field_ok income_limit_ok kvs ''income_limit''"
  shows "income_block (JObj kvs) n flag =
           Inr (flag \<and> income_within n (map_of kvs ''income_limit''))"
proof (cases "map_of kvs ''income_limit''")
  case None
  then show ?thesis by (simp add: income_block_def)
next
  case (Some v)
  with assms have ok: "income_limit_ok v" by (simp add: field_ok_def)
  show ?thesis
  proof (cases "as_number v")
    case num: (Some x)
    then have "v \<noteq> JNull" by auto
    have within: "income_within n (Some v) = (\<not> float_lt x (Finite (of_int n)))"
      by (simp add: num not_float_lt)
    have "income_block (JObj kvs) n flag =
        Inr (if float_lt x (Finite (of_int n)) then False else flag)"
      using Some num \<open>v \<noteq> JNull\<close> by (simp add: income_block_def int_gt_def)
    then show ?thesis
      unfolding Some within by (cases "float_lt x (Finite (of_int n))") simp_all
  next
    case None
    with ok obtain xs where v: "v = JList xs" and nums: "list_all is_number xs"
      by (cases v) (auto simp: is_number_def)
    show ?thesis
    proof (cases "length xs = 2")
      case True
      then obtain a b where xs: "xs = [a, b]"
        by (cases xs; cases "tl xs") auto
      with nums bounds_numbers [of a b] v obtain l h where b: "bounds v = Some (l, h)"
        by auto
      from in_range_bounds [OF b, of n] Some v True None b show ?thesis
        by (auto simp: income_block_def)
    next
      case False
      then have "bounds (JList xs) = None"
        by (cases "JList xs" rule: bounds.cases) auto
      with Some v False None show ?thesis by (simp add: income_block_def)
    qed
  qed
qed

lemma sentinels_lower: "py_lower ''all'' = ''all''" "py_lower ''any'' = ''any''"
  by (simp_all add: string_eval)

lemma lower_field_text:
  "\<not> missing data k \<Longrightarrow> lower_field data k = Inr (py_lower (field_text data k))"
  by (auto simp: missing_def form_get_def lower_field_def field_text_def split: option.splits)

lemma int_field_number:
  "numeric_value data k = Some n \<Longrightarrow> int_field data k = Inr (field_number data k)"
  by (auto simp: numeric_value_def int_field_def field_number_def split: option.splits)

lemma user_values_fields:
  assumes "validate_input data = Valid"
  shows "user_values data =
     Inr \<lparr>u_age = field_number data ''age'', u_caste = py_lower (field_text data ''caste''),
          u_gender = py_lower (field_text data ''gender''),
          u_income = field_number data ''income'',
          u_occupation = py_lower (field_text data ''occupation''),
          u_location = py_lower (field_text data ''location'')\<rparr>"
proof -
  from validated_numbers [OF assms] obtain a i
    where "numeric_value data ''age'' = Some a" "numeric_value data ''income'' = Some i"
    by blast
  then have "int_field data ''age'' = Inr (field_number data ''age'')"
    "int_field data ''income'' = Inr (field_number data ''income'')"
    by (simp_all add: int_field_number)
  moreover note validated_fields [OF assms, THEN lower_field_text]
  ultimately show ?thesis by (simp add: user_values_def)
qed

lemma scheme_eligible_check:
  assumes "scheme_ok scheme"
  shows "scheme_eligible
           \<lparr>u_age = a, u_caste = py_lower c, u_gender = py_lower g, u_income = i,
            u_occupation = py_lower oc, u_location = py_lower l\<rparr> scheme =
         Inr (age_in_range a (criterion scheme ''age_range'') \<and>
              accepts ''all'' g (criterion scheme ''gender'') \<and>
              accepts ''all'' c (criterion scheme ''caste'') \<and>
              income_within i (criterion scheme ''income_limit'') \<and>
              accepts ''any'' oc (criterion scheme ''occupation'') \<and>
              accepts ''all'' l (criterion scheme ''location''))"
proof -
  from assms obtain kvs where s: "scheme = JObj kvs"
    and f: "field_ok eligibility_ok kvs ''eligibility''"
    by (cases scheme) auto
  have "eligibility_ok (JObj (criteria scheme))"
    and get: "py_get scheme ''eligibility'' (JObj []) = Inr (JObj (criteria scheme))"
    using f by (auto simp: s field_ok_def split: option.splits json.splits)
  then have ok: "field_ok age_range_ok (criteria scheme) ''age_range''"
      "field_ok str_list (criteria scheme) ''gender''"
      "field_ok str_list (criteria scheme) ''caste''"
      "field_ok income_limit_ok (criteria scheme) ''income_limit''"
      "field_ok str_list (criteria scheme) ''occupation''"
      "field_ok str_list (criteria scheme) ''location''"
    by simp_all
  show ?thesis
    unfolding scheme_eligible_def get
    by (simp add: age_block_check [OF ok(1)] income_block_check [OF ok(4)]
          gender_block_def caste_block_def occupation_block_def location_block_def
          member_block_check [OF ok(2) sentinels_lower(1)]
          member_block_check [OF ok(3) sentinels_lower(1)]
          member_block_check [OF ok(5) sentinels_lower(2)]
          member_block_check [OF ok(6) sentinels_lower(1)]
          criterion_def)
qed

lemma filter_loop_check:
  assumes "list_all scheme_ok schemes"
    and "u = \<lparr>u_age = field_number data ''age'', u_caste = py_lower (field_text data ''caste''),
          u_gender = py_lower (field_text data ''gender''),
          u_income = field_number data ''income'',
          u_occupation = py_lower (field_text data ''occupation''),
          u_location = py_lower (field_text data ''location'')\<rparr>"
  shows "filter_loop u schemes filtered = Inr (filtered @ filter (eligible data) schemes)"
  using assms(1)
proof (induction schemes arbitrary: filtered)
  case Nil
  then show ?case by simp
next
  case (Cons scheme rest)
  then have ok: "scheme_ok scheme" and rest: "list_all scheme_ok rest" by simp_all
  have "scheme_eligible u scheme = Inr (eligible data scheme)"
    unfolding assms(2) scheme_eligible_check [OF ok] eligible_def ..
  with Cons.IH [OF rest] show ?case by simp
qed

subsection \<open>The example of the specification\<close>

lemma example_form_valid: "validate_input (example_form ''30'' ''40000'') = Valid"
  by (simp add: validate_input_sections required_loop_fields form_eval int_eval)

lemma bad_form_invalid:
  "validate_input (example_form ''30'' ''x'') =
     Invalid ''Invalid annual income value. Please select a valid range.''"
  by (simp add: validate_input_sections form_eval int_eval)

lemma example_user:
  "user_values (example_form ''30'' ''40000'') =
     Inr \<lparr>u_age = 30, u_caste = ''x'', u_gender = ''female'', u_income = 40000,
          u_occupation = ''z'', u_location = ''w''\<rparr>"
  by (simp add: user_values_def int_field_def lower_field_def form_eval int_eval string_eval)

lemma example_schemes_ok: "list_all scheme_ok [elder_scheme, example_scheme]"
  by (simp add: example_scheme_def elder_scheme_def field_ok_def is_number_def)

lemma example_checks:
  "filter (all_checks_pass \<lparr>u_age = 30, u_caste = ''x'', u_gender = ''female'',
                            u_income = 40000, u_occupation = ''z'', u_location = ''w''\<rparr>)
     [elder_scheme, example_scheme] = [example_scheme]"
  by (simp add: example_scheme_def elder_scheme_def block_eval string_eval)

lemma applicant_form_valid: "validate_input applicant_form = Valid"
  by (simp add: validate_input_sections required_loop_fields applicant_form_def form_eval
        int_eval)

lemma applicant_schemes_ok: "list_all scheme_ok applicant_schemes"
  by (simp add: applicant_schemes_def matching_scheme_def scheme_with_def example_scheme_def
        field_ok_def is_number_def)

lemma applicant_fields:
  "field_number applicant_form ''age'' = 30"
  "field_number applicant_form ''income'' = 40000"
  "py_lower (field_text applicant_form ''gender'') = ''female''"
  "py_lower (field_text applicant_form ''caste'') = ''obc''"
  "py_lower (field_text applicant_form ''occupation'') = ''farmer''"
  "py_lower (field_text applicant_form ''location'') = ''rural''"
  by (simp_all add: field_number_def field_text_def applicant_form_def form_eval int_eval
        string_eval)

lemma lowered_texts:
  "py_lower ''FEMALE'' = ''female''" "py_lower ''RURAL'' = ''rural''"
  "py_lower ''male'' = ''male''" "py_lower ''sc'' = ''sc''" "py_lower ''st'' = ''st''"
  "py_lower ''obc'' = ''obc''" "py_lower ''farmer'' = ''farmer''"
  "py_lower ''student'' = ''student''" "py_lower ''urban'' = ''urban''"
  by (simp_all add: string_eval)

lemma applicant_eligible:
  "filter (eligible applicant_form) applicant_schemes = [matching_scheme, example_scheme]"
  by (simp add: applicant_schemes_def matching_scheme_def scheme_with_def example_scheme_def
        eligible_def criterion_def between_def applicant_fields lowered_texts sentinels_lower)

subsection \<open>The claims about the filter\<close>

text \<open>
  C1: for a user input that passes validation and a list of schemes of the data model,
  \<^verbatim>\<open>filter_schemes\<close> returns exactly the schemes for which all six checks pass (age
  range, gender set, caste set, income bound or range, occupation set, location set, as
  \<open>eligible\<close> states them), in the order of the input; a scheme failing one check is
  left out.
\<close>

theorem filter_schemes_all_checks:
  assumes "validate_input user_input = Valid" and "list_all scheme_ok schemes"
  shows "filter_schemes schemes user_input =
           Inr (Schemes (filter (eligible user_input) schemes))"
  by (simp add: filter_schemes_def assms(1) user_values_fields [OF assms(1)]
        filter_loop_check [OF assms(2) refl])

text \<open>
  Of eight schemes, one fails on age, one on gender, one on caste, one on income, one on
  occupation and one on location; the two others are returned, in their order. The
  matching scheme and the user differ in letter case, and the user's income equals the
  limit.
\<close>

theorem filter_schemes_all_checks_witness:
  "validate_input applicant_form = Valid \<and> list_all scheme_ok applicant_schemes \<and>
   filter_schemes applicant_schemes applicant_form =
     Inr (Schemes [matching_scheme, example_scheme])"
  using filter_schemes_all_checks [OF applicant_form_valid applicant_schemes_ok]
    applicant_form_valid applicant_schemes_ok
  by (simp only: applicant_eligible simp_thms)

text \<open>
  C6: when validation fails, \<^verbatim>\<open>filter_schemes\<close> returns the validator's message as an
  error result whatever the scheme list is (no scheme is looked at); when validation
  succeeds, it returns a list of schemes.
\<close>

theorem filter_schemes_propagates_error:
  "(validate_input user_input = Invalid msg \<longrightarrow>
      filter_schemes schemes user_input = Inr (Error msg)) \<and>
   (validate_input user_input = Valid \<and> list_all scheme_ok schemes \<longrightarrow>
      (\<exists>ys. filter_schemes schemes user_input = Inr (Schemes ys)))"
  using filter_schemes_valid [of user_input schemes]
  by (auto simp: filter_schemes_invalid)

text \<open>
  An income that is not a number, against a list holding \<^verbatim>\<open>None\<close> in place of a scheme:
  the error comes back and the list is not touched. The valid example gives a list.
\<close>

theorem filter_schemes_propagates_error_witness:
  "validate_input (example_form ''30'' ''x'') =
     Invalid ''Invalid annual income value. Please select a valid range.'' \<and>
   filter_schemes [JNull] (example_form ''30'' ''x'') =
     Inr (Error ''Invalid annual income value. Please select a valid range.'') \<and>
   validate_input (example_form ''30'' ''40000'') = Valid \<and>
   list_all scheme_ok [elder_scheme, example_scheme] \<and>
   (\<exists>ys. filter_schemes [elder_scheme, example_scheme] (example_form ''30'' ''40000'') =
      Inr (Schemes ys))"
  using filter_schemes_propagates_error [of "example_form ''30'' ''x''"
      "''Invalid annual income value. Please select a valid range.''" "[JNull]"]
    filter_schemes_propagates_error [of "example_form ''30'' ''40000''" "[]"
      "[elder_scheme, example_scheme]"]
    bad_form_invalid example_form_valid example_schemes_ok
  by blast

text \<open>
  C9, as stated, fails: a scheme whose criteria group is \<^verbatim>\<open>null\<close> meets every typing
  condition the claim lists (it has no criterion at all), and \<^verbatim>\<open>filter_schemes\<close> raises
  \<^verbatim>\<open>AttributeError\<close> at \<^verbatim>\<open>elig.get("age_range")\<close>.
\<close>

theorem null_criteria_counterexample:
  "list_all listed_conditions [null_criteria_scheme] \<and>
   filter_schemes [null_criteria_scheme] (example_form ''30'' ''40000'') = Inl AttributeError"
  by (simp add: listed_conditions_def null_criteria_scheme_def field_ok_def filter_schemes_def
        example_form_valid example_user scheme_eligible_def age_block_def)

text \<open>
  C9, amended: on a list of schemes, each a record whose criteria group, when present, is
  a record with \<^verbatim>\<open>age_range\<close> a pair of numbers (or empty), the four set criteria lists
  of strings and \<^verbatim>\<open>income_limit\<close> a number or a list of numbers, each when present,
  \<^verbatim>\<open>filter_schemes\<close> raises no exception for any user input: it returns an error result
  or a list of schemes.
\<close>

theorem filter_schemes_total:
  assumes "list_all scheme_ok schemes"
  shows "\<exists>r. filter_schemes schemes user_input = Inr r"
proof (cases "validate_input user_input")
  case Valid
  from filter_schemes_valid [OF Valid assms] show ?thesis by blast
next
  case (Invalid msg)
  then show ?thesis by (simp add: filter_schemes_invalid)
qed

text \<open>The eight schemes above, on a form that validates and on one that does not.\<close>

theorem filter_schemes_total_witness:
  "list_all scheme_ok applicant_schemes \<and>
   (\<exists>r. filter_schemes applicant_schemes applicant_form = Inr r) \<and>
   (\<exists>r. filter_schemes applicant_schemes (example_form ''30'' ''x'') = Inr r)"
  using filter_schemes_total [OF applicant_schemes_ok, of applicant_form]
    filter_schemes_total [OF applicant_schemes_ok, of "example_form ''30'' ''x''"]
    applicant_schemes_ok
  by blast

subsection \<open>The claims about single checks\<close>

lemma lower_all_names:
  "list_all is_str xs \<Longrightarrow> lower_all xs = Inr names \<Longrightarrow>
   list_ex (\<lambda>x. lower_of x = Inr sentinel) xs \<Longrightarrow> sentinel \<in> set names"
proof (induction xs arbitrary: names)
  case Nil
  then show ?case by simp
next
  case (Cons x xs)
  from Cons.prems(1) obtain s where x: "x = JStr s" by (cases x) auto
  from Cons.prems(1) lower_all_strs [of xs] obtain ns where ns: "lower_all xs = Inr ns"
    by auto
  with Cons.prems(2) x have names: "names = py_lower s # ns" by simp
  show ?case
  proof (cases "lower_of x = Inr sentinel")
    case True
    with x names show ?thesis by simp
  next
    case False
    with Cons.prems(3) have "list_ex (\<lambda>x. lower_of x = Inr sentinel) xs" by simp
    from Cons.IH [OF _ ns this] Cons.prems(1) names show ?thesis by simp
  qed
qed

lemma member_block_unconstrained:
  assumes "unconstrained sentinel (map_of kvs key)"
  shows "member_block key sentinel (JObj kvs) uval flag = Inr flag"
proof (cases "map_of kvs key")
  case None
  then show ?thesis by (simp add: member_block_def)
next
  case (Some v)
  with assms obtain xs where v: "v = JList xs"
    and xs: "xs = [] \<or> (list_all is_str xs \<and> list_ex (\<lambda>x. lower_of x = Inr sentinel) xs)"
    by (cases v) auto
  show ?thesis
  proof (cases "xs = []")
    case True
    with Some v show ?thesis by (simp add: member_block_def)
  next
    case False
    with xs have strs: "list_all is_str xs" and ex: "list_ex (\<lambda>x. lower_of x = Inr sentinel) xs"
      by auto
    from lower_all_strs [OF strs] obtain names where n: "lower_all xs = Inr names" by blast
    from lower_all_names [OF strs n ex] have "sentinel \<in> set names" .
    with Some v n show ?thesis by (simp add: member_block_def)
  qed
qed

lemma age_block_unconstrained:
  assumes "map_of kvs ''age_range'' = None \<or> map_of kvs ''age_range'' = Some (JList [])"
  shows "age_block (JObj kvs) age flag = Inr flag"
  using assms by (auto simp: age_block_def)

lemma income_block_unconstrained:
  assumes "map_of kvs ''income_limit'' = None \<or> map_of kvs ''income_limit'' = Some (JList [])"
  shows "income_block (JObj kvs) income flag = Inr flag"
  using assms by (auto simp: income_block_def)

text \<open>
  C4: an axis that is absent, empty or (for the four set axes) contains its sentinel
  passes whatever the user's value is: the block leaves \<^verbatim>\<open>is_eligible\<close> as it found it
  and raises nothing. The sentinel is \<^verbatim>\<open>all\<close> for gender, caste and location and
  \<^verbatim>\<open>any\<close> for occupation.
\<close>

theorem unconstrained_axis_passes:
  "(map_of kvs ''age_range'' = None \<or> map_of kvs ''age_range'' = Some (JList []) \<longrightarrow>
      age_block (JObj kvs) age flag = Inr flag) \<and>
   (unconstrained ''all'' (map_of kvs ''gender'') \<longrightarrow>
      gender_block (JObj kvs) gender flag = Inr flag) \<and>
   (unconstrained ''all'' (map_of kvs ''caste'') \<longrightarrow>
      caste_block (JObj kvs) caste flag = Inr flag) \<and>
   (map_of kvs ''income_limit'' = None \<or> map_of kvs ''income_limit'' = Some (JList []) \<longrightarrow>
      income_block (JObj kvs) income flag = Inr flag) \<and>
   (unconstrained ''any'' (map_of kvs ''occupation'') \<longrightarrow>
      occupation_block (JObj kvs) occupation flag = Inr flag) \<and>
   (unconstrained ''all'' (map_of kvs ''location'') \<longrightarrow>
      location_block (JObj kvs) location flag = Inr flag)"
  by (simp add: age_block_unconstrained income_block_unconstrained member_block_unconstrained
        gender_block_def caste_block_def occupation_block_def location_block_def)

lemma open_criteria_unconstrained:
  "map_of open_criteria ''age_range'' = None"
  "unconstrained ''all'' (map_of open_criteria ''gender'')"
  "unconstrained ''all'' (map_of open_criteria ''caste'')"
  "map_of open_criteria ''income_limit'' = Some (JList [])"
  "unconstrained ''any'' (map_of open_criteria ''occupation'')"
  "unconstrained ''all'' (map_of open_criteria ''location'')"
  by (simp_all add: open_criteria_def string_eval)

theorem unconstrained_axis_passes_witness:
  "age_block (JObj open_criteria) 30 True = Inr True \<and>
   gender_block (JObj open_criteria) ''female'' True = Inr True \<and>
   caste_block (JObj open_criteria) ''x'' True = Inr True \<and>
   income_block (JObj open_criteria) 40000 True = Inr True \<and>
   occupation_block (JObj open_criteria) ''z'' True = Inr True \<and>
   location_block (JObj open_criteria) ''w'' True = Inr True"
  using unconstrained_axis_passes [where kvs = open_criteria and age = 30 and flag = True
      and gender = "''female''" and caste = "''x''" and income = 40000
      and occupation = "''z''" and location = "''w''"]
    open_criteria_unconstrained
  by blast

text \<open>
  C5: with a scalar \<^verbatim>\<open>income_limit\<close>, an income equal to the limit passes and an income
  above it fails; with a two-element range of numbers the check passes exactly when the
  income lies in the range, both ends included.
\<close>

theorem income_limit_bound:
  "(map_of kvs ''income_limit'' = Some bound \<and> as_number bound = Some (Finite (of_int income)) \<longrightarrow>
      income_block (JObj kvs) income True = Inr True) \<and>
   (map_of kvs ''income_limit'' = Some bound \<and> as_number bound = Some x \<and>
    float_lt x (Finite (of_int income)) \<longrightarrow>
      income_block (JObj kvs) income flag = Inr False) \<and>
   (map_of kvs ''income_limit'' = Some (JList [lo, hi]) \<and>
    as_number lo = Some l \<and> as_number hi = Some h \<longrightarrow>
      income_block (JObj kvs) income True =
        Inr (float_le l (Finite (of_int income)) \<and> float_le (Finite (of_int income)) h))"
proof (intro conjI impI)
  assume "map_of kvs ''income_limit'' = Some bound \<and> as_number bound = Some (Finite (of_int income))"
  moreover from this have "bound \<noteq> JNull" by auto
  ultimately show "income_block (JObj kvs) income True = Inr True"
    by (simp add: income_block_def int_gt_def)
next
  assume a: "map_of kvs ''income_limit'' = Some bound \<and> as_number bound = Some x \<and>
    float_lt x (Finite (of_int income))"
  then have "bound \<noteq> JNull" by auto
  with a show "income_block (JObj kvs) income flag = Inr False"
    by (simp add: income_block_def int_gt_def)
next
  assume "map_of kvs ''income_limit'' = Some (JList [lo, hi]) \<and>
    as_number lo = Some l \<and> as_number hi = Some h"
  then show "income_block (JObj kvs) income True =
        Inr (float_le l (Finite (of_int income)) \<and> float_le (Finite (of_int income)) h)"
    by (simp add: income_block_def in_range_def le_int_def int_le_def)
qed

text \<open>
  A limit of 50000 against incomes 50000 and 50001, and the range from 10000 to 40000.5
  against incomes 40000 and 40001.
\<close>

theorem income_limit_bound_witness:
  "income_block (JObj [(''income_limit'', JInt 50000)]) 50000 True = Inr True \<and>
   income_block (JObj [(''income_limit'', JInt 50000)]) 50001 True = Inr False \<and>
   income_block (JObj [(''income_limit'', JList [JInt 10000, JFloat (Finite (40000 + 1 / 2))])])
     40000 True = Inr True \<and>
   income_block (JObj [(''income_limit'', JList [JInt 10000, JFloat (Finite (40000 + 1 / 2))])])
     40001 True = Inr False"
  using income_limit_bound [where kvs = "[(''income_limit'', JInt 50000)]"
      and bound = "JInt 50000" and income = 50000]
    income_limit_bound [where kvs = "[(''income_limit'', JInt 50000)]"
      and bound = "JInt 50000" and x = "Finite 50000" and income = 50001 and flag = True]
    income_limit_bound [where
      kvs = "[(''income_limit'', JList [JInt 10000, JFloat (Finite (40000 + 1 / 2))])]"
      and income = 40000 and lo = "JInt 10000" and hi = "JFloat (Finite (40000 + 1 / 2))"
      and l = "Finite 10000" and h = "Finite (40000 + 1 / 2)"]
    income_limit_bound [where
      kvs = "[(''income_limit'', JList [JInt 10000, JFloat (Finite (40000 + 1 / 2))])]"
      and income = 40001 and lo = "JInt 10000" and hi = "JFloat (Finite (40000 + 1 / 2))"
      and l = "Finite 10000" and h = "Finite (40000 + 1 / 2)"]
  by simp



section \<open>The second step, proved\<close>

lemma has_question_typed:
  "has_question (JObj q) =
     Inr (case map_of q ''question'' of None \<Rightarrow> False | Some t \<Rightarrow> truthy t)"
  by (cases q) (auto simp: has_question_def split: option.splits)

lemma step2_scheme_typed:
  assumes "step2_ok scheme"
  shows "step2_scheme to_str answers scheme =
           Inr (set_flag scheme (expected_flag to_str answers scheme))"
proof -
  from assms obtain kvs where s: "scheme = JObj kvs" by (cases scheme) auto
  show ?thesis
  proof (cases "map_of kvs ''step2_question''")
    case None
    then show ?thesis
      by (simp add: s step2_scheme_def has_question_def expected_flag_def)
  next
    case (Some step2)
    with assms s consider "step2 = JNull"
      | q where "step2 = JObj q" "map_of kvs ''id'' \<noteq> None" "field_ok is_str q ''expected_answer''"
      by (cases step2) auto
    then show ?thesis
    proof cases
      case 1
      with Some show ?thesis
        by (simp add: s step2_scheme_def has_question_def expected_flag_def)
    next
      case 2
      from 2(2) obtain ident where ident: "map_of kvs ''id'' = Some ident" by auto
      show ?thesis
      proof (cases "case map_of q ''question'' of None \<Rightarrow> False | Some t \<Rightarrow> truthy t")
        case False
        with Some 2(1) show ?thesis
          by (simp add: s step2_scheme_def has_question_typed expected_flag_def)
      next
        case True
        from 2(3) have exp: "and_then (py_get (JObj q) ''expected_answer'' (JStr []))
            lower_of = Inr (py_lower (expected_answer scheme))"
          by (auto simp: s Some 2(1) field_ok_def split: option.splits json.splits
                elim: is_str.elims)
        have sub: "py_lower (answer_get answers (to_str ident)) =
            py_lower (submitted_answer to_str answers scheme)"
          by (simp add: s ident answer_get_def)
        have "step2_scheme to_str answers scheme =
            and_then (and_then (py_get (JObj q) ''expected_answer'' (JStr [])) lower_of)
              (\<lambda>expected. py_setitem scheme ''final_eligible''
                 (JBool (py_lower (answer_get answers (to_str ident)) = expected)))"
          using True Some 2(1) ident
          by (simp add: s step2_scheme_def has_question_typed and_then_def split: sum.splits)
        also have "\<dots> = Inr (set_flag scheme (answers_match to_str answers scheme))"
          unfolding exp sub by (simp add: s answers_match_def)
        finally show ?thesis
          using True Some 2(1) by (simp add: expected_flag_def s)
      qed
    qed
  qed
qed

lemma evaluate_step2_typed:
  "list_all step2_ok schemes \<Longrightarrow>
   evaluate_step2 to_str schemes answers =
     (map (\<lambda>s. set_flag s (expected_flag to_str answers s)) schemes, None)"
  by (induction schemes) (simp_all add: step2_scheme_typed)

lemma map_of_dict_set:
  "map_of (dict_set kvs k v) k' = (if k' = k then Some v else map_of kvs k')"
  by (induction kvs) auto

lemma final_eligible_set_flag:
  "step2_ok s \<Longrightarrow> final_eligible (set_flag s b) = Some (JBool b)"
  by (cases s) (simp_all add: map_of_dict_set)

lemma step2_scheme_frame:
  assumes "step2_scheme to_str answers scheme = Inr scheme'"
  shows "same_but_flag scheme scheme'"
proof -
  from assms obtain kvs where s: "scheme = JObj kvs"
    by (cases scheme) (simp_all add: step2_scheme_def)
  from assms obtain b where "scheme' = set_flag scheme b"
    unfolding step2_scheme_def s
    by (auto simp: and_then_def Let_def split: sum.splits if_splits)
  then show ?thesis by (cases b) (simp_all add: same_but_flag_def)
qed

lemma same_but_flag_refl: "same_but_flag x x"
  by (simp add: same_but_flag_def)

lemma evaluate_step2_frame:
  "list_all2 same_but_flag schemes (fst (evaluate_step2 to_str schemes answers))"
proof (induction schemes)
  case Nil
  then show ?case by simp
next
  case (Cons scheme rest)
  show ?case
  proof (cases "step2_scheme to_str answers scheme")
    case (Inl e)
    then show ?thesis
      by (simp add: list_all2_refl same_but_flag_refl)
  next
    case (Inr scheme')
    with Cons step2_scheme_frame [OF Inr] show ?thesis
      by (cases "evaluate_step2 to_str rest answers") simp
  qed
qed

lemma same_but_flag_fields:
  assumes "same_but_flag x y" and "k \<noteq> ''final_eligible''"
  shows "field_of y k = field_of x k"
  using assms by (cases x) (auto simp: same_but_flag_def map_of_dict_set)

lemma filter_loop_subseq:
  "filter_loop u schemes filtered = Inr r \<Longrightarrow> \<exists>zs. r = filtered @ zs \<and> subseq zs schemes"
proof (induction schemes arbitrary: filtered)
  case Nil
  then show ?case by simp
next
  case (Cons scheme rest)
  from Cons.prems obtain ok where ok: "scheme_eligible u scheme = Inr ok"
    and r: "filter_loop u rest (if ok then filtered @ [scheme] else filtered) = Inr r"
    by (auto simp: and_then_def split: sum.splits)
  from Cons.IH [OF r] obtain zs
    where zs: "r = (if ok then filtered @ [scheme] else filtered) @ zs" "subseq zs rest"
    by blast
  show ?case
  proof (cases ok)
    case True
    with zs show ?thesis by (intro exI [of _ "scheme # zs"]) simp
  next
    case False
    with zs show ?thesis by (intro exI [of _ zs]) (simp add: list_emb_Cons)
  qed
qed

lemma filter_schemes_subseq:
  assumes "filter_schemes schemes user_input = Inr (Schemes ys)"
  shows "subseq ys schemes"
proof -
  from assms obtain u where "filter_loop u schemes [] = Inr ys"
    by (auto simp: filter_schemes_def and_then_def split: validation.splits sum.splits)
  from filter_loop_subseq [OF this] show ?thesis by simp
qed

lemma example_str: "str_known (JInt 1) = ''1''" "str_known (JInt 2) = ''2''"
  by (simp_all add: str_known_def int_text_def char_of_def bit_Suc_0_iff)

text \<open>
  C2: on schemes shaped as the data model says, \<^verbatim>\<open>evaluate_step2\<close> ends without an
  exception and gives every scheme the flag \<open>expected_flag\<close>: true on a scheme without
  a step-2 question, and on a scheme with one true exactly when the lowercased submitted
  answer equals the lowercased expected answer, a missing one being the empty string. A
  scheme has a step-2 question when its \<^verbatim>\<open>step2_question\<close> carries a question text that
  is not empty.
\<close>

theorem evaluate_step2_flags:
  assumes "list_all step2_ok schemes"
  shows "evaluate_step2 to_str schemes answers =
           (map (\<lambda>s. set_flag s (expected_flag to_str answers s)) schemes, None) \<and>
         (\<forall>s \<in> set schemes.
            final_eligible (set_flag s (expected_flag to_str answers s)) =
              Some (JBool (expected_flag to_str answers s)))"
proof
  show "evaluate_step2 to_str schemes answers =
           (map (\<lambda>s. set_flag s (expected_flag to_str answers s)) schemes, None)"
    using assms by (rule evaluate_step2_typed)
  show "\<forall>s \<in> set schemes.
            final_eligible (set_flag s (expected_flag to_str answers s)) =
              Some (JBool (expected_flag to_str answers s))"
    using assms by (auto simp: list_all_iff final_eligible_set_flag)
qed

lemma step2_examples_ok: "list_all step2_ok [example_scheme, asked_scheme]"
  by (simp add: example_scheme_def asked_scheme_def field_ok_def)

lemma step2_examples_flags:
  "expected_flag str_known (map_of [(''2'', ''YES'')]) example_scheme = True"
  "expected_flag str_known (map_of [(''2'', ''YES'')]) asked_scheme = True"
  "expected_flag str_known (map_of [(''2'', ''no'')]) example_scheme = True"
  "expected_flag str_known (map_of [(''2'', ''no'')]) asked_scheme = False"
  "expected_flag str_known Map.empty example_scheme = True"
  "expected_flag str_known Map.empty asked_scheme = False"
  by (simp_all add: expected_flag_def answers_match_def example_scheme_def asked_scheme_def
        example_str string_eval)

theorem evaluate_step2_flags_witness:
  "list_all step2_ok [example_scheme, asked_scheme] \<and>
   evaluate_step2 str_known [example_scheme, asked_scheme] (map_of [(''2'', ''YES'')]) =
     ([set_flag example_scheme True, set_flag asked_scheme True], None) \<and>
   evaluate_step2 str_known [example_scheme, asked_scheme] (map_of [(''2'', ''no'')]) =
     ([set_flag example_scheme True, set_flag asked_scheme False], None) \<and>
   evaluate_step2 str_known [example_scheme, asked_scheme] Map.empty =
     ([set_flag example_scheme True, set_flag asked_scheme False], None)"
proof -
  note flags = evaluate_step2_flags [OF step2_examples_ok, of str_known, THEN conjunct1]
  have "evaluate_step2 str_known [example_scheme, asked_scheme] (map_of [(''2'', ''YES'')]) =
     ([set_flag example_scheme True, set_flag asked_scheme True], None)"
    unfolding flags by (simp only: list.map step2_examples_flags)
  moreover
  have "evaluate_step2 str_known [example_scheme, asked_scheme] (map_of [(''2'', ''no'')]) =
     ([set_flag example_scheme True, set_flag asked_scheme False], None)"
    unfolding flags by (simp only: list.map step2_examples_flags)
  moreover
  have "evaluate_step2 str_known [example_scheme, asked_scheme] Map.empty =
     ([set_flag example_scheme True, set_flag asked_scheme False], None)"
    unfolding flags by (simp only: list.map step2_examples_flags)
  ultimately show ?thesis using step2_examples_ok by blast
qed

lemma blank_question_flag:
  "step2_scheme str_known answers blank_question_scheme =
     Inr (set_flag blank_question_scheme True)"
  by (simp add: blank_question_scheme_def step2_scheme_def has_question_def)

text \<open>
  C7, as stated, fails: a scheme whose \<^verbatim>\<open>step2_question\<close> is present with an empty
  question text is flagged eligible although the submitted answer \<^verbatim>\<open>no\<close> does not match
  the expected \<^verbatim>\<open>yes\<close>.
\<close>

theorem blank_question_counterexample:
  "step2_present blank_question_scheme \<and>
   \<not> answers_match str_known (map_of [(''1'', ''no'')]) blank_question_scheme \<and>
   evaluate_step2 str_known [blank_question_scheme] (map_of [(''1'', ''no'')]) =
     ([set_flag blank_question_scheme True], None) \<and>
   final_eligible (set_flag blank_question_scheme True) = Some (JBool True)"
  by (simp add: blank_question_flag)
     (simp add: blank_question_scheme_def answers_match_def example_str string_eval)

text \<open>
  C7, amended: for a scheme whose \<^verbatim>\<open>step2_question\<close> is present with a question text
  that is not empty, the flag \<^verbatim>\<open>evaluate_step2\<close> gives is true exactly when the
  submitted answer matches the expected one.
\<close>

theorem step2_question_conditional:
  assumes "list_all step2_ok schemes" and "scheme \<in> set schemes"
    and "has_step2_question scheme"
  shows "\<exists>flagged. evaluate_step2 to_str schemes answers = (flagged, None) \<and>
           length flagged = length schemes \<and>
           (\<forall>i < length schemes. schemes ! i = scheme \<longrightarrow>
              final_eligible (flagged ! i) = Some (JBool (answers_match to_str answers scheme)))"
proof -
  from assms(1,2) have ok: "step2_ok scheme" by (simp add: list_all_iff)
  have "final_eligible (set_flag scheme (expected_flag to_str answers scheme)) =
      Some (JBool (answers_match to_str answers scheme))"
    using assms(3) by (simp add: final_eligible_set_flag [OF ok] expected_flag_def)
  then show ?thesis
    by (intro exI [of _ "map (\<lambda>s. set_flag s (expected_flag to_str answers s)) schemes"])
       (auto simp: evaluate_step2_typed [OF assms(1)])
qed

theorem step2_question_conditional_witness:
  "list_all step2_ok [example_scheme, asked_scheme] \<and> asked_scheme \<in> set [example_scheme, asked_scheme] \<and>
   has_step2_question asked_scheme \<and>
   (\<exists>flagged. evaluate_step2 str_known [example_scheme, asked_scheme] (map_of [(''2'', ''no'')]) =
        (flagged, None) \<and>
      length flagged = 2 \<and> final_eligible (flagged ! 1) = Some (JBool False))"
proof -
  have q: "has_step2_question asked_scheme"
    by (simp add: asked_scheme_def)
  have m: "answers_match str_known (map_of [(''2'', ''no'')]) asked_scheme = False"
    by (simp add: answers_match_def asked_scheme_def example_str string_eval)
  have i: "asked_scheme \<in> set [example_scheme, asked_scheme]" by simp
  from step2_question_conditional [OF step2_examples_ok i q, of str_known "map_of [(''2'', ''no'')]"]
  obtain flagged where f: "evaluate_step2 str_known [example_scheme, asked_scheme] (map_of [(''2'', ''no'')]) =
        (flagged, None)" "length flagged = length [example_scheme, asked_scheme]"
    "\<forall>i < length [example_scheme, asked_scheme]. [example_scheme, asked_scheme] ! i = asked_scheme \<longrightarrow>
       final_eligible (flagged ! i) = Some (JBool (answers_match str_known (map_of [(''2'', ''no'')]) asked_scheme))"
    by blast
  from f(3) have "final_eligible (flagged ! 1) = Some (JBool False)"
    unfolding m by simp
  with f(1,2) step2_examples_ok i q show ?thesis by auto
qed

text \<open>
  C8: the schemes \<^verbatim>\<open>filter_schemes\<close> returns are schemes of its input, unchanged and in
  the input's order. \<^verbatim>\<open>evaluate_step2\<close> keeps the length and the order of the list, and
  each scheme afterwards is the scheme before, or that scheme with \<^verbatim>\<open>final_eligible\<close>
  set; every other field reads the same. This holds for every input, also when the call
  ends in an exception.
\<close>

theorem schemes_only_flagged:
  "(filter_schemes schemes user_input = Inr (Schemes ys) \<longrightarrow> subseq ys schemes) \<and>
   list_all2 same_but_flag schemes (fst (evaluate_step2 to_str schemes answers)) \<and>
   (\<forall>k. k \<noteq> ''final_eligible'' \<longrightarrow>
      map (\<lambda>s. field_of s k) (fst (evaluate_step2 to_str schemes answers)) =
      map (\<lambda>s. field_of s k) schemes)"
proof (intro conjI impI allI)
  assume "filter_schemes schemes user_input = Inr (Schemes ys)"
  then show "subseq ys schemes" by (rule filter_schemes_subseq)
next
  show "list_all2 same_but_flag schemes (fst (evaluate_step2 to_str schemes answers))"
    by (rule evaluate_step2_frame)
next
  fix k :: string
  assume k: "k \<noteq> ''final_eligible''"
  have "list_all2 (\<lambda>x y. field_of y k = field_of x k) schemes
      (fst (evaluate_step2 to_str schemes answers))"
    using evaluate_step2_frame [of schemes to_str answers]
    by (rule list_all2_mono) (simp add: same_but_flag_fields [OF _ k])
  then show "map (\<lambda>s. field_of s k) (fst (evaluate_step2 to_str schemes answers)) =
      map (\<lambda>s. field_of s k) schemes"
    by (induction rule: list_all2_induct) simp_all
qed

text \<open>
  The filter on the example returns the second of two schemes; the second step flags a
  scheme without a question and one whose answer does not match, and the \<^verbatim>\<open>id\<close> of
  both reads as before.
\<close>

theorem schemes_only_flagged_witness:
  "filter_schemes [elder_scheme, example_scheme] (example_form ''30'' ''40000'') =
     Inr (Schemes [example_scheme]) \<and>
   subseq [example_scheme] [elder_scheme, example_scheme] \<and>
   list_all2 same_but_flag [example_scheme, asked_scheme]
     (fst (evaluate_step2 str_known [example_scheme, asked_scheme] (map_of [(''2'', ''no'')]))) \<and>
   map (\<lambda>s. field_of s ''id'')
     (fst (evaluate_step2 str_known [example_scheme, asked_scheme] (map_of [(''2'', ''no'')]))) =
     [Some (JInt 1), Some (JInt 2)]"
proof -
  have r: "filter_schemes [elder_scheme, example_scheme] (example_form ''30'' ''40000'') =
      Inr (Schemes [example_scheme])"
    using filter_schemes_valid [OF example_form_valid example_schemes_ok]
    unfolding example_user by (simp only: example_checks sum.inject simp_thms ex_simps)
  note filtered = schemes_only_flagged [where schemes = "[elder_scheme, example_scheme]"
      and user_input = "example_form ''30'' ''40000''" and ys = "[example_scheme]",
      THEN conjunct1, rule_format, OF r]
  note frame = schemes_only_flagged [where schemes = "[example_scheme, asked_scheme]"
      and to_str = str_known and answers = "map_of [(''2'', ''no'')]",
      THEN conjunct2]
  have k: "''id'' \<noteq> ''final_eligible''" by simp
  note fields = frame [THEN conjunct2, rule_format, OF k]
  have ids: "map (\<lambda>s. field_of s ''id'') [example_scheme, asked_scheme] =
      [Some (JInt 1), Some (JInt 2)]"
    by (simp add: example_scheme_def asked_scheme_def)
  from r filtered frame [THEN conjunct1] fields ids show ?thesis by (simp only: simp_thms)
qed

end
